theory Spec2Isabelle
  imports Complex_Main "HOL-Library.Stream"
begin

section \<open>Python values shared by both subsystems\<close>

text \<open>
  Exceptions of the Python source are values: every function that can raise returns
  \<open>py_error + 'a\<close>, with \<open>Inl\<close> for the exception.  Python floats are modelled as
  \<open>real\<close>: comparisons and arithmetic are exact, rounding error is not represented.
\<close>

datatype py_error =
    ValueError string
  | IndexError
  | KeyError string
  | TypeError string
  | RuntimeError string
  | ZeroDivisionError
  | AttributeError string

text \<open>
  Indexing a Python sequence (a list, a numpy axis, a torch ModuleList) with an integer:
  indices \<open>-n \<dots> -1\<close> address the elements from the end, anything outside
  \<open>-n \<dots> n-1\<close> raises.
\<close>

definition py_index :: "'a list \<Rightarrow> int \<Rightarrow> py_error + 'a" where
  "py_index xs i =
     (if 0 \<le> i \<and> i < int (length xs) then Inr (xs ! nat i)
      else if i < 0 \<and> - int (length xs) \<le> i then Inr (xs ! nat (int (length xs) + i))
      else Inl IndexError)"

section \<open>DeepZ: model conversion (deep_z/pytorch.py, ConvertedModel)\<close>

text \<open>
  The modules recorded by the forward hooks, in firing order.  \<open>'w\<close> stands for the
  weight tensor and the hyperparameters of a layer, \<open>'b\<close> for a bias tensor.  The
  attribute \<open>bias\<close> of a convolution or of a dense layer is \<open>None\<close> when the layer
  was built with \<open>bias=False\<close>.
\<close>

datatype ('w, 'b) torch_module =
    Conv2d 'w "'b option"
  | Linear 'w "'b option"
  | ReLU
  | OtherModule

datatype ('w, 'b) zono_op = ZonoConv 'w 'b | ZonoDenseLayer 'w 'b | ZonoReLU

fun is_ZonoConv :: "('w, 'b) zono_op \<Rightarrow> bool" where
  "is_ZonoConv (ZonoConv w b) = True"
| "is_ZonoConv _ = False"

fun is_ZonoDenseLayer :: "('w, 'b) zono_op \<Rightarrow> bool" where
  "is_ZonoDenseLayer (ZonoDenseLayer w b) = True"
| "is_ZonoDenseLayer _ = False"

fun is_ZonoReLU :: "('w, 'b) zono_op \<Rightarrow> bool" where
  "is_ZonoReLU ZonoReLU = True"
| "is_ZonoReLU _ = False"

record ('w, 'b) converted_model =
  ops :: "('w, 'b) zono_op list"
  reshape_op_num :: "nat option"
  forward_mode :: string

text \<open>
  Lines 68-92: the isinstance chain over one recorded module.  Lines 80 and 86 read
  \<open>module.bias.data\<close>; when \<open>module.bias\<close> is \<open>None\<close> that raises the
  \<open>AttributeError\<close> of a \<open>NoneType\<close> object without the attribute \<open>data\<close>.
\<close>

fun convert_module :: "('w, 'b) torch_module \<Rightarrow> py_error + ('w, 'b) zono_op" where
  "convert_module (Conv2d w bias) =
     (case bias of
        None \<Rightarrow> Inl (AttributeError ''NoneType object has no attribute data'')
      | Some b \<Rightarrow> Inr (ZonoConv w b))"
| "convert_module (Linear w bias) =
     (case bias of
        None \<Rightarrow> Inl (AttributeError ''NoneType object has no attribute data'')
      | Some b \<Rightarrow> Inr (ZonoDenseLayer w b))"
| "convert_module ReLU = Inr ZonoReLU"
| "convert_module OtherModule = Inl (ValueError ''Supported Operations are Conv2D, Linear, and RelU'')"

fun convert_modules ::
  "('w, 'b) torch_module list \<Rightarrow> ('w, 'b) zono_op list \<Rightarrow> py_error + ('w, 'b) zono_op list" where
  "convert_modules [] acc = Inr acc"
| "convert_modules (m # ms) acc =
     (case convert_module m of
        Inl e \<Rightarrow> Inl e
      | Inr z \<Rightarrow> convert_modules ms (acc @ [z]))"

text \<open>
  Lines 94-104, one pass of the body of \<open>for op_num, op in enumerate(self.ops)\<close>.
  \<open>r\<close> is the attribute \<open>reshape_op_num\<close> (\<open>None\<close> while it has not been assigned).
  Both \<open>if\<close> statements run; \<open>and\<close> short-circuits.
\<close>

definition reshape_step ::
  "('w, 'b) zono_op list \<Rightarrow> nat \<Rightarrow> nat option \<Rightarrow> py_error + nat option" where
  "reshape_step zs op_num r =
     (if op_num < length zs \<and> is_ZonoDenseLayer (zs ! op_num) then
        (case py_index zs (int op_num - 1) of
           Inl e \<Rightarrow> Inl e
         | Inr p1 \<Rightarrow>
             (let r1 = (if is_ZonoConv p1 then Some op_num else r) in
              if is_ZonoReLU p1 then
                (case py_index zs (int op_num - 2) of
                   Inl e \<Rightarrow> Inl e
                 | Inr p2 \<Rightarrow> Inr (if is_ZonoConv p2 then Some op_num else r1))
              else Inr r1))
      else Inr r)"

fun reshape_loop ::
  "('w, 'b) zono_op list \<Rightarrow> nat list \<Rightarrow> nat option \<Rightarrow> py_error + nat option" where
  "reshape_loop zs [] r = Inr r"
| "reshape_loop zs (op_num # rest) r =
     (case reshape_step zs op_num r of
        Inl e \<Rightarrow> Inl e
      | Inr r' \<Rightarrow> reshape_loop zs rest r')"

text \<open>
  \<open>ConvertedModel.__init__\<close>.  \<open>modules\<close> is what the forward hooks recorded when the
  model was run once on a random input.
\<close>

definition ConvertedModel_init ::
  "('w, 'b) torch_module list \<Rightarrow> bool \<Rightarrow> py_error + ('w, 'b) converted_model" where
  "ConvertedModel_init modules channels_first =
     (if \<not> channels_first then Inl (ValueError ''Please provide data in channels first format'')
      else
        (case convert_modules modules [] of
           Inl e \<Rightarrow> Inl e
         | Inr zs \<Rightarrow>
             (case reshape_loop zs [0..<length zs] None of
                Inl e \<Rightarrow> Inl e
              | Inr r \<Rightarrow> Inr \<lparr>ops = zs, reshape_op_num = r, forward_mode = ''abstract''\<rparr>)))"

text \<open>
  The reshape point in the specification's words: the first dense layer immediately
  preceded by a convolution, or by a ReLU itself preceded by a convolution.
\<close>

definition reshape_candidate :: "('w, 'b) zono_op list \<Rightarrow> nat \<Rightarrow> bool" where
  "reshape_candidate zs i =
     (i < length zs \<and> is_ZonoDenseLayer (zs ! i) \<and>
      ((1 \<le> i \<and> is_ZonoConv (zs ! (i - 1))) \<or>
       (2 \<le> i \<and> is_ZonoReLU (zs ! (i - 1)) \<and> is_ZonoConv (zs ! (i - 2)))))"

definition first_reshape_point :: "('w, 'b) zono_op list \<Rightarrow> nat option" where
  "first_reshape_point zs = find (reshape_candidate zs) [0..<length zs]"

text \<open>
  The pattern the estimator's construction warning declares unsupported: a dense layer
  somewhere before a convolution, among the recorded modules and among the converted ones.
\<close>

fun is_Conv2d :: "('w, 'b) torch_module \<Rightarrow> bool" where
  "is_Conv2d (Conv2d w bias) = True"
| "is_Conv2d _ = False"

fun is_Linear :: "('w, 'b) torch_module \<Rightarrow> bool" where
  "is_Linear (Linear w bias) = True"
| "is_Linear _ = False"

fun linear_before_conv :: "('w, 'b) torch_module list \<Rightarrow> bool" where
  "linear_before_conv [] = False"
| "linear_before_conv (m # ms) =
     ((is_Linear m \<and> list_ex is_Conv2d ms) \<or> linear_before_conv ms)"

fun dense_before_conv :: "('w, 'b) zono_op list \<Rightarrow> bool" where
  "dense_before_conv [] = False"
| "dense_before_conv (z # zs) =
     ((is_ZonoDenseLayer z \<and> list_ex is_ZonoConv zs) \<or> dense_before_conv zs)"

text \<open>
  A recorded layer of a supported type whose \<open>bias\<close> attribute, if the conversion reads
  it, is a tensor.
\<close>

fun supported_module :: "('w, 'b) torch_module \<Rightarrow> bool" where
  "supported_module (Conv2d w bias) = (bias \<noteq> None)"
| "supported_module (Linear w bias) = (bias \<noteq> None)"
| "supported_module ReLU = True"
| "supported_module OtherModule = False"

fun has_bias :: "('w, 'b) torch_module \<Rightarrow> bool" where
  "has_bias (Conv2d w bias) = (bias \<noteq> None)"
| "has_bias (Linear w bias) = (bias \<noteq> None)"
| "has_bias _ = True"

section \<open>DeepZ: certification (deep_z/pytorch.py, PytorchDeepZ.certify)\<close>

text \<open>
  The output zonotope of the abstract forward pass: the center (one logit per class) and the
  error terms, one row per error term, one column per class.
\<close>

type_synonym zonotope = "real list \<times> real list list"

text \<open>
  Modelled from the spec: \<open>ZonoBounds.certify_via_subtraction\<close> is defined in
  \<open>deep_z/deep_z.py\<close>, which is not among the sources.  Section 4.6: the zonotope of
  \<open>logit[predicted_class] - logit[k]\<close> is formed by subtracting the centers and the
  error-term rows, its interval lower bound is the center minus the sum of the absolute
  error terms, and class k passes when that lower bound is \<open>> 0\<close>.
\<close>

fun eps_difference :: "real list list \<Rightarrow> int \<Rightarrow> int \<Rightarrow> py_error + real list" where
  "eps_difference [] p k = Inr []"
| "eps_difference (row # rows) p k =
     (case py_index row p of
        Inl e \<Rightarrow> Inl e
      | Inr a \<Rightarrow>
          (case py_index row k of
             Inl e \<Rightarrow> Inl e
           | Inr b \<Rightarrow>
               (case eps_difference rows p k of
                  Inl e \<Rightarrow> Inl e
                | Inr ds \<Rightarrow> Inr ((a - b) # ds))))"

definition certify_via_subtraction ::
  "int \<Rightarrow> int \<Rightarrow> real list \<Rightarrow> real list list \<Rightarrow> py_error + bool" where
  "certify_via_subtraction predicted_class class_to_consider cent eps =
     (case py_index cent predicted_class of
        Inl e \<Rightarrow> Inl e
      | Inr cp \<Rightarrow>
          (case py_index cent class_to_consider of
             Inl e \<Rightarrow> Inl e
           | Inr ck \<Rightarrow>
               (case eps_difference eps predicted_class class_to_consider of
                  Inl e \<Rightarrow> Inl e
                | Inr ds \<Rightarrow> Inr (0 < (cp - ck) - sum_list (map abs ds)))))"

text \<open>
  Lines 296-302: \<open>for k in range(self.nb_classes)\<close>, appending one result for every
  \<open>k != prediction\<close>.
\<close>

fun certify_loop ::
  "nat list \<Rightarrow> int \<Rightarrow> real list \<Rightarrow> real list list \<Rightarrow> bool list \<Rightarrow> py_error + bool list" where
  "certify_loop [] prediction cent eps certification_results = Inr certification_results"
| "certify_loop (k # ks) prediction cent eps certification_results =
     (if int k \<noteq> prediction then
        (case certify_via_subtraction prediction (int k) cent eps of
           Inl e \<Rightarrow> Inl e
         | Inr cert_via_sub \<Rightarrow>
             certify_loop ks prediction cent eps (certification_results @ [cert_via_sub]))
      else certify_loop ks prediction cent eps certification_results)"

text \<open>
  \<open>PytorchDeepZ.certify\<close>.  \<open>forward\<close> is the abstract forward pass through the
  converted network; its layers live in \<open>deep_z.py\<close>, so it is a parameter here.
  Python's \<open>all\<close> of a list is \<open>list_all id\<close>.
\<close>

definition certify ::
  "('x \<Rightarrow> 'x \<Rightarrow> py_error + zonotope) \<Rightarrow> nat \<Rightarrow> 'x \<Rightarrow> 'x \<Rightarrow> int \<Rightarrow> py_error + bool" where
  "certify forward nb_classes cent eps prediction =
     (case forward cent eps of
        Inl e \<Rightarrow> Inl e
      | Inr (cent', eps') \<Rightarrow>
          (case certify_loop [0..<nb_classes] prediction cent' eps' [] of
             Inl e \<Rightarrow> Inl e
           | Inr certification_results \<Rightarrow> Inr (list_all id certification_results)))"

section \<open>Adversarial patch: arrays and the numeric library\<close>

text \<open>
  Sequencing of calls that may raise: the first exception ends the computation.
\<close>

definition and_then :: "py_error + 'a \<Rightarrow> ('a \<Rightarrow> py_error + 'b) \<Rightarrow> py_error + 'b" where
  "and_then m f = (case m of Inl e \<Rightarrow> Inl e | Inr v \<Rightarrow> f v)"

text \<open>
  A numpy array: its shape and its element at every index vector.  Only the elements at
  indices inside the shape are part of the array.
\<close>

record ndarray =
  shape :: "nat list"
  elem :: "nat list \<Rightarrow> real"

fun all_indices :: "nat list \<Rightarrow> nat list list" where
  "all_indices [] = [[]]"
| "all_indices (n # ns) = concat (map (\<lambda>i. map ((#) i) (all_indices ns)) [0..<n])"

text \<open>The elements in row-major order, and equality of arrays as numpy's \<open>array_equal\<close>.\<close>

definition to_list :: "ndarray \<Rightarrow> real list" where
  "to_list a = map (elem a) (all_indices (shape a))"

definition array_equal :: "ndarray \<Rightarrow> ndarray \<Rightarrow> bool" where
  "array_equal a b = (shape a = shape b \<and> to_list a = to_list b)"

definition full :: "nat list \<Rightarrow> real \<Rightarrow> ndarray" where
  "full s v = \<lparr>shape = s, elem = (\<lambda>idx. v)\<rparr>"

definition zeros_like :: "ndarray \<Rightarrow> ndarray" where
  "zeros_like x = full (shape x) 0"

definition amap :: "(real \<Rightarrow> real) \<Rightarrow> ndarray \<Rightarrow> ndarray" where
  "amap f x = \<lparr>shape = shape x, elem = (\<lambda>idx. f (elem x idx))\<rparr>"

text \<open>
  Broadcasting of two shapes, aligned at the last axis: equal extents, or one of them 1.
\<close>

fun broadcast_rev :: "nat list \<Rightarrow> nat list \<Rightarrow> nat list option" where
  "broadcast_rev [] ys = Some ys"
| "broadcast_rev xs [] = Some xs"
| "broadcast_rev (x # xs) (y # ys) =
     (if x = y \<or> y = 1 then map_option ((#) x) (broadcast_rev xs ys)
      else if x = 1 then map_option ((#) y) (broadcast_rev xs ys)
      else None)"

definition broadcast_shapes :: "nat list \<Rightarrow> nat list \<Rightarrow> nat list option" where
  "broadcast_shapes s t = map_option rev (broadcast_rev (rev s) (rev t))"

text \<open>The index into an operand of shape \<open>s\<close> that a result index reads.\<close>

definition bcast_index :: "nat list \<Rightarrow> nat list \<Rightarrow> nat list" where
  "bcast_index s idx =
     map2 (\<lambda>d i. if d = 1 then 0 else i) s (drop (length idx - length s) idx)"

definition binop :: "(real \<Rightarrow> real \<Rightarrow> real) \<Rightarrow> ndarray \<Rightarrow> ndarray \<Rightarrow> py_error + ndarray" where
  "binop f a b =
     (case broadcast_shapes (shape a) (shape b) of
        None \<Rightarrow> Inl (ValueError ''operands could not be broadcast together'')
      | Some s \<Rightarrow>
          Inr \<lparr>shape = s,
               elem = (\<lambda>idx. f (elem a (bcast_index (shape a) idx))
                               (elem b (bcast_index (shape b) idx)))\<rparr>)"

text \<open>An in-place operator (\<open>+=\<close>, \<open>-=\<close>): the result must have the shape of the target.\<close>

definition inplace_op :: "(real \<Rightarrow> real \<Rightarrow> real) \<Rightarrow> ndarray \<Rightarrow> ndarray \<Rightarrow> py_error + ndarray" where
  "inplace_op f a b =
     (if broadcast_shapes (shape a) (shape b) = Some (shape a)
      then binop f a b
      else Inl (ValueError ''non-broadcastable output operand''))"

text \<open>
  Slices \<open>start:stop\<close> along the leading axes (\<open>None\<close> is a bare \<open>:\<close>).  A negative
  bound counts from the end and every bound is clamped to the axis, so a slice never
  raises; more slices than axes do.
\<close>

definition slice_bound :: "nat \<Rightarrow> int \<Rightarrow> nat" where
  "slice_bound n v = (if v < 0 then nat (max (v + int n) 0) else nat (min v (int n)))"

definition slice_window1 :: "nat \<Rightarrow> (int \<times> int) option \<Rightarrow> nat \<times> nat" where
  "slice_window1 n sl =
     (case sl of
        None \<Rightarrow> (0, n)
      | Some (start, stop) \<Rightarrow>
          (slice_bound n start, slice_bound n stop - slice_bound n start))"

fun slice_window :: "nat list \<Rightarrow> (int \<times> int) option list \<Rightarrow> (nat \<times> nat) list" where
  "slice_window [] sls = []"
| "slice_window (n # ns) [] = (0, n) # slice_window ns []"
| "slice_window (n # ns) (sl # sls) = slice_window1 n sl # slice_window ns sls"

definition getitem :: "ndarray \<Rightarrow> (int \<times> int) option list \<Rightarrow> py_error + ndarray" where
  "getitem x sls =
     (if length (shape x) < length sls then Inl IndexError
      else
        let w = slice_window (shape x) sls in
        Inr \<lparr>shape = map snd w, elem = (\<lambda>idx. elem x (map2 (+) (map fst w) idx))\<rparr>)"

definition in_window :: "(nat \<times> nat) list \<Rightarrow> nat list \<Rightarrow> bool" where
  "in_window w idx = list_all2 (\<lambda>(lo, len) i. lo \<le> i \<and> i < lo + len) w idx"

text \<open>
  Assignment to a slice: the value must broadcast to the shape of the slice (extra leading
  axes of the value must have extent 1).
\<close>

definition broadcastable_to :: "nat list \<Rightarrow> nat list \<Rightarrow> bool" where
  "broadcastable_to vs ts =
     (list_all (\<lambda>d. d = 1) (take (length vs - length ts) vs) \<and>
      list_all2 (\<lambda>v t. v = t \<or> v = 1)
        (drop (length vs - length ts) vs) (drop (length ts - length vs) ts))"

definition setitem :: "ndarray \<Rightarrow> (int \<times> int) option list \<Rightarrow> ndarray \<Rightarrow> py_error + ndarray" where
  "setitem x sls v =
     (if length (shape x) < length sls then Inl IndexError
      else
        let w = slice_window (shape x) sls in
        if \<not> broadcastable_to (shape v) (map snd w)
        then Inl (ValueError ''could not broadcast input array'')
        else
          Inr \<lparr>shape = shape x,
               elem = (\<lambda>idx. if in_window w idx
                              then elem v
                                     (replicate (length (shape v) - length w) 0 @
                                      bcast_index
                                        (drop (length (shape v) - length w) (shape v))
                                        (map2 (\<lambda>i lo. i - lo) idx (map fst w)))
                              else elem x idx)\<rparr>)"

text \<open>Selecting one entry of the leading axis, \<open>x[i, :, :, :]\<close> with \<open>k\<close> colons.\<close>

definition select0 :: "ndarray \<Rightarrow> nat \<Rightarrow> nat \<Rightarrow> py_error + ndarray" where
  "select0 x i k =
     (case shape x of
        [] \<Rightarrow> Inl IndexError
      | n # rest \<Rightarrow>
          if length rest < k \<or> n \<le> i then Inl IndexError
          else Inr \<lparr>shape = rest, elem = (\<lambda>idx. elem x (i # idx))\<rparr>)"

definition expand_dims :: "ndarray \<Rightarrow> nat \<Rightarrow> py_error + ndarray" where
  "expand_dims x axis =
     (if length (shape x) < axis then Inl (ValueError ''axis is out of bounds'')
      else Inr \<lparr>shape = take axis (shape x) @ [1] @ drop axis (shape x),
                elem = (\<lambda>idx. elem x (take axis idx @ drop (Suc axis) idx))\<rparr>)"

definition broadcast_to :: "ndarray \<Rightarrow> nat list \<Rightarrow> py_error + ndarray" where
  "broadcast_to x s =
     (if length (shape x) \<le> length s \<and> broadcastable_to (shape x) s
      then Inr \<lparr>shape = s, elem = (\<lambda>idx. elem x (bcast_index (shape x) idx))\<rparr>
      else Inl (ValueError ''operands could not be broadcast together''))"

text \<open>\<open>np.concatenate(xs, axis=0)\<close>: the trailing extents must agree.\<close>

fun locate :: "ndarray list \<Rightarrow> nat \<Rightarrow> ndarray \<times> nat" where
  "locate [] i = (full [] 0, i)"
| "locate (x # xs) i =
     (if i < hd (shape x) then (x, i) else locate xs (i - hd (shape x)))"

definition concatenate :: "ndarray list \<Rightarrow> py_error + ndarray" where
  "concatenate xs =
     (case xs of
        [] \<Rightarrow> Inl (ValueError ''need at least one array to concatenate'')
      | x # rest \<Rightarrow>
          if shape x = [] then Inl (ValueError ''zero-dimensional arrays cannot be concatenated'')
          else if list_ex (\<lambda>y. shape y = [] \<or> tl (shape y) \<noteq> tl (shape x)) rest
          then Inl (ValueError ''all the input array dimensions must match'')
          else
            Inr \<lparr>shape = sum_list (map (\<lambda>y. hd (shape y)) xs) # tl (shape x),
                 elem = (\<lambda>idx. case idx of
                                  [] \<Rightarrow> 0
                                | i # r \<Rightarrow> (case locate xs i of (y, j) \<Rightarrow> elem y (j # r)))\<rparr>)"

text \<open>\<open>np.pad\<close> of a 2-D array with the constant 0.\<close>

definition pad2 :: "ndarray \<Rightarrow> (int \<times> int) \<Rightarrow> (int \<times> int) \<Rightarrow> py_error + ndarray" where
  "pad2 m ph pw =
     (case shape m of
        [h, w] \<Rightarrow>
          if fst ph < 0 \<or> snd ph < 0 \<or> fst pw < 0 \<or> snd pw < 0
          then Inl (ValueError ''index can't contain negative values'')
          else
            Inr \<lparr>shape = [nat (fst ph) + h + nat (snd ph), nat (fst pw) + w + nat (snd pw)],
                 elem = (\<lambda>idx. case idx of
                            [i, j] \<Rightarrow>
                              if nat (fst ph) \<le> i \<and> i < nat (fst ph) + h \<and>
                                 nat (fst pw) \<le> j \<and> j < nat (fst pw) + w
                              then elem m [i - nat (fst ph), j - nat (fst pw)]
                              else 0
                          | _ \<Rightarrow> 0)\<rparr>
      | _ \<Rightarrow> Inl (ValueError ''pad_width does not match the array''))"

text \<open>Number conversions: \<open>int(x)\<close> truncates toward zero, \<open>round\<close> goes to the even neighbour on a tie.\<close>

definition py_int :: "real \<Rightarrow> int" where
  "py_int x = (if 0 \<le> x then \<lfloor>x\<rfloor> else \<lceil>x\<rceil>)"

definition py_round :: "real \<Rightarrow> int" where
  "py_round x =
     (if x - of_int \<lfloor>x\<rfloor> < 1 / 2 then \<lfloor>x\<rfloor>
      else if 1 / 2 < x - of_int \<lfloor>x\<rfloor> then \<lfloor>x\<rfloor> + 1
      else if even \<lfloor>x\<rfloor> then \<lfloor>x\<rfloor> else \<lfloor>x\<rfloor> + 1)"

definition clip :: "real \<Rightarrow> real \<Rightarrow> real \<Rightarrow> real" where
  "clip a_min a_max v = min (max v a_min) a_max"

text \<open>
  \<open>scipy.ndimage\<close> is outside the repository: its three interpolating functions are
  parameters.  What the library checks before it interpolates is written out in the
  callers below: the rotation plane must exist, and a zoom or shift vector needs one entry
  per axis.
\<close>

record ndimage =
  nd_rotate :: "ndarray \<Rightarrow> real \<Rightarrow> nat \<times> nat \<Rightarrow> ndarray"
  nd_zoom :: "ndarray \<Rightarrow> real list \<Rightarrow> ndarray"
  nd_shift :: "ndarray \<Rightarrow> real list \<Rightarrow> ndarray"

definition call_rotate :: "ndimage \<Rightarrow> ndarray \<Rightarrow> real \<Rightarrow> nat \<times> nat \<Rightarrow> py_error + ndarray" where
  "call_rotate nd x angle axes =
     (if fst axes < length (shape x) \<and> snd axes < length (shape x) \<and> fst axes \<noteq> snd axes
      then Inr (nd_rotate nd x angle axes)
      else Inl (ValueError ''invalid rotation plane specified''))"

definition call_zoom :: "ndimage \<Rightarrow> ndarray \<Rightarrow> real list \<Rightarrow> py_error + ndarray" where
  "call_zoom nd x zooms =
     (if length zooms = length (shape x) then Inr (nd_zoom nd x zooms)
      else Inl (RuntimeError ''sequence argument must have length equal to input rank''))"

definition call_shift :: "ndimage \<Rightarrow> ndarray \<Rightarrow> real list \<Rightarrow> py_error + ndarray" where
  "call_shift nd x s =
     (if length s = length (shape x) then Inr (nd_shift nd x s)
      else Inl (RuntimeError ''sequence argument must have length equal to input rank''))"

text \<open>
  The library's documented shapes: rotation with \<open>reshape=False\<close> and shifting keep the
  shape, zooming gives every axis the rounded product of its extent and its factor.
\<close>

definition zoom_shape :: "nat list \<Rightarrow> real list \<Rightarrow> nat list" where
  "zoom_shape s zooms = map2 (\<lambda>n z. nat (py_round (real n * z))) s zooms"

definition ndimage_shapes :: "ndimage \<Rightarrow> bool" where
  "ndimage_shapes nd =
     ((\<forall>x angle axes. shape (nd_rotate nd x angle axes) = shape x) \<and>
      (\<forall>x zooms. shape (nd_zoom nd x zooms) = zoom_shape (shape x) zooms) \<and>
      (\<forall>x s. shape (nd_shift nd x s) = shape x))"

text \<open>The process-wide random generator: the stream of the values \<open>random()\<close> will return.\<close>

type_synonym rng = "real stream"

definition uniform :: "real \<Rightarrow> real \<Rightarrow> rng \<Rightarrow> real \<times> rng" where
  "uniform a b g = (a + (b - a) * shd g, stl g)"

section \<open>Adversarial patch: the attack (adversarial_patch_numpy.py)\<close>

text \<open>The classifier the attack is given: the attributes and the one method it uses.\<close>

record classifier =
  input_shape :: "nat list"
  channels_first :: bool
  clip_values :: "real \<times> real"
  nb_classes :: nat
  loss_gradient :: "ndarray \<Rightarrow> ndarray \<Rightarrow> ndarray"

record attack =
  estimator :: classifier
  target :: int
  rotation_max :: real
  scale_min :: real
  scale_max :: real
  learning_rate :: real
  max_iter :: int
  batch_size :: int
  image_shape :: "nat list"
  i_h :: nat
  i_w :: nat
  patch_shape :: "nat list"
  patch :: ndarray

text \<open>
  \<open>_check_params\<close>, lines 187-218.  The \<open>isinstance\<close> tests are settled by the types
  of the model; the range tests remain, in the order of the source, on \<open>rotation_max\<close>,
  \<open>scale_min\<close>, \<open>scale_max\<close>, \<open>learning_rate\<close>, \<open>max_iter\<close> and \<open>batch_size\<close>.
\<close>

definition check_params :: "real \<Rightarrow> real \<Rightarrow> real \<Rightarrow> real \<Rightarrow> int \<Rightarrow> int \<Rightarrow> py_error + unit" where
  "check_params rot smin smax lr iters bs =
     (if rot < 0 \<or> 180 < rot
      then Inl (ValueError ''The maximum rotation of the random patches must be between 0 and 180 degrees.'')
      else if smin < 0 \<or> smax < smin
      then Inl (ValueError ''The minimum scale of the random patched must be greater than 0 and less than the maximum scaling.'')
      else if 1 < smax
      then Inl (ValueError ''The maximum scale of the random patched must not be greater than 1.'')
      else if \<not> 0 < lr
      then Inl (ValueError ''The learning rate must be greater than 0.0.'')
      else if \<not> 0 < iters
      then Inl (ValueError ''The number of optimization steps must be greater than 0.'')
      else if \<not> 0 < bs
      then Inl (ValueError ''The batch size must be greater than 0.'')
      else Inr ())"

text \<open>
  \<open>__init__\<close>, lines 93-128.  The patch shape computed from the smallest image edge is
  overwritten by the image shape at line 123; the reads of the image shape that precede it
  can still raise.
\<close>

definition AdversarialPatchNumpy_init ::
  "classifier \<Rightarrow> int \<Rightarrow> real \<Rightarrow> real \<Rightarrow> real \<Rightarrow> real \<Rightarrow> int \<Rightarrow> int \<Rightarrow> py_error + attack" where
  "AdversarialPatchNumpy_init c tgt rot smin smax lr iters bs =
     and_then (check_params rot smin smax lr iters bs) (\<lambda>_.
     and_then (py_index (input_shape c) (if channels_first c then 1 else 0)) (\<lambda>_.
     and_then (py_index (input_shape c) (if channels_first c then 2 else 1)) (\<lambda>_.
     and_then (py_index (input_shape c) (if channels_first c then 0 else 2)) (\<lambda>_.
       let mean_value = (snd (clip_values c) - fst (clip_values c)) / 2 + fst (clip_values c) in
       Inr \<lparr>estimator = c, target = tgt, rotation_max = rot, scale_min = smin,
            scale_max = smax, learning_rate = lr, max_iter = iters, batch_size = bs,
            image_shape = input_shape c,
            i_h = (if channels_first c then 1 else 0),
            i_w = (if channels_first c then 2 else 1),
            patch_shape = input_shape c,
            patch = amap (\<lambda>v. v * mean_value) (full (input_shape c) 1)\<rparr>))))"

text \<open>\<open>np.linspace(a, b, n)\<close> and the two sparse grids of \<open>np.meshgrid\<close>.\<close>

definition linspace :: "real \<Rightarrow> real \<Rightarrow> nat \<Rightarrow> ndarray" where
  "linspace a b n =
     \<lparr>shape = [n],
      elem = (\<lambda>idx. case idx of
                       [i] \<Rightarrow> if n = 1 then a else a + real i * ((b - a) / real (n - 1))
                     | _ \<Rightarrow> 0)\<rparr>"

definition meshgrid_sparse :: "ndarray \<Rightarrow> ndarray \<Rightarrow> ndarray \<times> ndarray" where
  "meshgrid_sparse x y =
     (\<lparr>shape = 1 # shape x, elem = (\<lambda>idx. elem x (tl idx))\<rparr>,
      \<lparr>shape = shape y @ [1], elem = (\<lambda>idx. elem y (butlast idx))\<rparr>)"

text \<open>\<open>_get_circular_patch_mask\<close>, lines 220-250.\<close>

definition get_circular_patch_mask :: "attack \<Rightarrow> nat \<Rightarrow> py_error + ndarray" where
  "get_circular_patch_mask a sharpness =
     and_then (py_index (patch_shape a) (int (i_h a))) (\<lambda>p_h.
     and_then (py_index (patch_shape a) (int (i_w a))) (\<lambda>p_w.
       let diameter = min p_h p_w;
           x = linspace (- 1) 1 diameter;
           y = linspace (- 1) 1 diameter;
           (x_grid, y_grid) = meshgrid_sparse x y in
     and_then (binop (+) (amap (\<lambda>v. v ^ 2) x_grid) (amap (\<lambda>v. v ^ 2) y_grid)) (\<lambda>s.
       let z_grid = amap (\<lambda>v. v ^ sharpness) s;
           mask = amap (\<lambda>v. 1 - clip (- 1) 1 v) z_grid in
     and_then (py_index (image_shape a) (int (i_h a))) (\<lambda>im_h.
     and_then (py_index (shape mask) (int (i_h a))) (\<lambda>m_h.
       let pad_h_before = py_int ((real im_h - real m_h) / 2);
           pad_h_after = int im_h - pad_h_before - int m_h in
     and_then (py_index (image_shape a) (int (i_w a))) (\<lambda>im_w.
     and_then (py_index (shape mask) (int (i_w a))) (\<lambda>m_w.
       let pad_w_before = py_int ((real im_w - real m_w) / 2);
           pad_w_after = int im_w - pad_w_before - int m_w in
     and_then (pad2 mask (pad_h_before, pad_h_after) (pad_w_before, pad_w_after)) (\<lambda>mask.
       let channel_index = (if channels_first (estimator a) then 1 else 3::nat);
           axis = channel_index - 1 in
     and_then (expand_dims mask axis) (\<lambda>mask.
       broadcast_to mask (patch_shape a))))))))))"

text \<open>\<open>_rotate\<close>, lines 280-282.\<close>

definition rotate_np :: "ndimage \<Rightarrow> attack \<Rightarrow> ndarray \<Rightarrow> real \<Rightarrow> py_error + ndarray" where
  "rotate_np nd a x angle = call_rotate nd x angle (i_h a, i_w a)"

text \<open>
  \<open>_scale\<close>, lines 284-328.  The slices at lines 302 and 315 address axes 0 and 1 in
  either layout.
\<close>

definition unpack2 :: "nat list \<Rightarrow> py_error + nat \<times> nat" where
  "unpack2 xs =
     (case xs of
        [h, w] \<Rightarrow> Inr (h, w)
      | _ \<Rightarrow> Inl (ValueError ''not enough values to unpack''))"

definition scale_np :: "ndimage \<Rightarrow> attack \<Rightarrow> ndarray \<Rightarrow> real \<Rightarrow> py_error + ndarray" where
  "scale_np nd a x scale =
     (let cf = channels_first (estimator a);
          zooms = (if cf then [1, scale, scale] else [scale, scale, 1]) in
      and_then (unpack2 (if cf then take 2 (drop 1 (patch_shape a)) else take 2 (patch_shape a)))
        (\<lambda>(height, width).
      if scale < 1 then
        let scale_h = py_round (real height * scale);
            scale_w = py_round (real width * scale);
            top = (int height - scale_h) div 2;
            left = (int width - scale_w) div 2;
            x_out = zeros_like x in
        and_then (call_zoom nd x zooms) (\<lambda>z.
        and_then (setitem x_out [Some (top, top + scale_h), Some (left, left + scale_w)] z) (\<lambda>x_out.
        and_then (call_zoom nd x zooms) (\<lambda>z.
          if cf
          then setitem x_out [None, Some (top, top + scale_h), Some (left, left + scale_w)] z
          else setitem x_out [Some (top, top + scale_h), Some (left, left + scale_w), None] z)))
      else if 1 < scale then
        let scale_h = py_round (real height / scale);
            scale_w = py_round (real width / scale);
            top = (int height - scale_h) div 2;
            left = (int width - scale_w) div 2 in
        and_then (getitem x [Some (top, top + scale_h), Some (left, left + scale_w)]) (\<lambda>crop.
        and_then (call_zoom nd crop zooms) (\<lambda>x_out.
        and_then (py_index (shape x_out) (int (i_h a))) (\<lambda>out_h.
          let cut_top = (int out_h - int height) div 2 in
        and_then (py_index (shape x_out) (int (i_w a))) (\<lambda>out_w.
          let cut_left = (int out_w - int width) div 2 in
          if cf
          then getitem x_out [None, Some (cut_top, cut_top + int height),
                              Some (cut_left, cut_left + int width)]
          else getitem x_out [Some (cut_top, cut_top + int height),
                              Some (cut_left, cut_left + int width), None]))))
      else Inr x))"

text \<open>\<open>_shift\<close>, lines 330-337.\<close>

definition shift_np ::
  "ndimage \<Rightarrow> attack \<Rightarrow> ndarray \<Rightarrow> real \<Rightarrow> real \<Rightarrow> py_error + ndarray \<times> real \<times> real" where
  "shift_np nd a x shift_h shift_w =
     (let shift_hw = (if channels_first (estimator a) then [0, shift_h, shift_w]
                      else [shift_h, shift_w, 0]) in
      and_then (call_shift nd x shift_hw) (\<lambda>x. Inr (x, shift_h, shift_w)))"

text \<open>The values stored in a transformation dictionary: a float, or a tuple of ints.\<close>

datatype py_value = Float real | Tuple "int list"

type_synonym transformation = "string \<rightharpoonup> py_value"

definition dict_get :: "transformation \<Rightarrow> string \<Rightarrow> py_error + py_value" where
  "dict_get d k = (case d k of None \<Rightarrow> Inl (KeyError k) | Some v \<Rightarrow> Inr v)"

text \<open>Arithmetic on a stored value (\<open>-v\<close>, \<open>1.0 / v\<close>) needs a number.\<close>

definition as_number :: "py_value \<Rightarrow> py_error + real" where
  "as_number v =
     (case v of
        Float r \<Rightarrow> Inr r
      | Tuple t \<Rightarrow> Inl (TypeError ''bad operand type''))"

text \<open>\<open>_random_transformation\<close>, lines 339-369.\<close>

definition random_transformation ::
  "ndimage \<Rightarrow> attack \<Rightarrow> ndarray \<Rightarrow> real option \<Rightarrow> rng \<Rightarrow>
   py_error + (ndarray \<times> ndarray \<times> transformation) \<times> rng" where
  "random_transformation nd a patch0 scale0 g0 =
     and_then (get_circular_patch_mask a 40) (\<lambda>patch_mask.
       let (angle, g1) = uniform (- rotation_max a) (rotation_max a) g0;
           transformation = Map.empty(''rotate'' \<mapsto> Float angle) in
     and_then (rotate_np nd a patch0 angle) (\<lambda>patch.
     and_then (rotate_np nd a patch_mask angle) (\<lambda>patch_mask.
       let (scale, g2) = (case scale0 of
                            None \<Rightarrow> uniform (scale_min a) (scale_max a) g1
                          | Some s \<Rightarrow> (s, g1)) in
     and_then (scale_np nd a patch scale) (\<lambda>patch.
     and_then (scale_np nd a patch_mask scale) (\<lambda>patch_mask.
       let transformation = transformation(''scale'' \<mapsto> Float scale) in
     and_then (py_index (input_shape (estimator a)) (int (i_h a))) (\<lambda>in_h.
     and_then (py_index (patch_shape a) (int (i_h a))) (\<lambda>p_h.
       let shift_max_h = (real in_h - real p_h * scale) / 2 in
     and_then (py_index (input_shape (estimator a)) (int (i_w a))) (\<lambda>in_w.
     and_then (py_index (patch_shape a) (int (i_w a))) (\<lambda>p_w.
       let shift_max_w = (real in_w - real p_w * scale) / 2 in
       if 0 < shift_max_h \<and> 0 < shift_max_w then
         let (shift_h, g3) = uniform (- shift_max_h) shift_max_h g2;
             (shift_w, g4) = uniform (- shift_max_w) shift_max_w g3 in
         and_then (shift_np nd a patch shift_h shift_w) (\<lambda>(patch, _, _).
         and_then (shift_np nd a patch_mask shift_h shift_w) (\<lambda>(patch_mask, shift_1, shift_2).
           Inr ((patch, patch_mask,
                 transformation(''shift_1'' \<mapsto> Float shift_1, ''shift_2'' \<mapsto> Float shift_2)),
                g4)))
       else
         Inr ((patch, patch_mask, transformation(''shift'' \<mapsto> Tuple [0, 0, 0])), g2))))))))))"

text \<open>\<open>_reverse_transformation\<close>, lines 371-386.\<close>

definition reverse_transformation ::
  "ndimage \<Rightarrow> attack \<Rightarrow> ndarray \<Rightarrow> ndarray \<Rightarrow> transformation \<Rightarrow> py_error + ndarray" where
  "reverse_transformation nd a gradients0 patch_mask_transformed transformation =
     and_then (binop (*) gradients0 patch_mask_transformed) (\<lambda>gradients.
     and_then (dict_get transformation ''shift_h'') (\<lambda>shift_h.
     and_then (dict_get transformation ''shift_w'') (\<lambda>shift_w.
     and_then (as_number shift_h) (\<lambda>sh.
     and_then (as_number shift_w) (\<lambda>sw.
     and_then (shift_np nd a gradients (- sh) (- sw)) (\<lambda>(gradients, _, _).
     and_then (dict_get transformation ''scale'') (\<lambda>scale.
     and_then (as_number scale) (\<lambda>sc.
     and_then (if sc = 0 then Inl ZeroDivisionError else Inr (1 / sc)) (\<lambda>inv_scale.
     and_then (scale_np nd a gradients inv_scale) (\<lambda>gradients.
     and_then (dict_get transformation ''rotate'') (\<lambda>angle.
     and_then (as_number angle) (\<lambda>an.
       rotate_np nd a gradients (- an)))))))))))))"

text \<open>
  \<open>_augment_images_with_random_patch\<close>, lines 252-278: the loop over the images, then the
  two concatenations.
\<close>

fun augment_loop ::
  "ndimage \<Rightarrow> attack \<Rightarrow> ndarray \<Rightarrow> ndarray \<Rightarrow> real option \<Rightarrow> nat list \<Rightarrow>
   ndarray list \<times> ndarray list \<times> transformation list \<Rightarrow> rng \<Rightarrow>
   py_error + (ndarray list \<times> ndarray list \<times> transformation list) \<times> rng" where
  "augment_loop nd a images p scale [] acc g = Inr (acc, g)"
| "augment_loop nd a images p scale (i_image # rest)
     (patched_images, patch_mask_transformed_list, transformations) g =
     and_then (random_transformation nd a p scale g)
       (\<lambda>((patch_transformed, patch_mask_transformed, transformation), g').
       let inverted_patch_mask_transformed = amap (\<lambda>v. 1 - v) patch_mask_transformed in
     and_then (select0 images i_image 3) (\<lambda>image.
     and_then (binop (*) image inverted_patch_mask_transformed) (\<lambda>background.
     and_then (binop (*) patch_transformed patch_mask_transformed) (\<lambda>foreground.
     and_then (binop (+) background foreground) (\<lambda>patched_image.
     and_then (expand_dims patched_image 0) (\<lambda>patched_image.
     and_then (expand_dims patch_mask_transformed 0) (\<lambda>patch_mask_transformed.
       augment_loop nd a images p scale rest
         (patched_images @ [patched_image],
          patch_mask_transformed_list @ [patch_mask_transformed],
          transformations @ [transformation]) g')))))))"

definition augment_images_with_random_patch ::
  "ndimage \<Rightarrow> attack \<Rightarrow> ndarray \<Rightarrow> ndarray \<Rightarrow> real option \<Rightarrow> rng \<Rightarrow>
   py_error + (ndarray \<times> ndarray \<times> transformation list) \<times> rng" where
  "augment_images_with_random_patch nd a images p scale g =
     and_then (py_index (shape images) 0) (\<lambda>n.
     and_then (augment_loop nd a images p scale [0..<n] ([], [], []) g)
       (\<lambda>((patched_images, patch_mask_transformed_list, transformations), g').
     and_then (concatenate patched_images) (\<lambda>patched_images.
     and_then (concatenate patch_mask_transformed_list) (\<lambda>patch_mask_transformed_np.
       Inr ((patched_images, patch_mask_transformed_np, transformations), g')))))"

text \<open>
  \<open>generate\<close>, lines 162-166: the loop over the images of one batch.  The mask and the
  transformation are read at the position inside the batch, as the source does.
\<close>

fun image_loop ::
  "ndimage \<Rightarrow> attack \<Rightarrow> ndarray \<Rightarrow> ndarray \<Rightarrow> transformation list \<Rightarrow> nat list \<Rightarrow>
   ndarray \<Rightarrow> py_error + ndarray" where
  "image_loop nd a gradients patch_mask_transformed transforms [] patch_gradients =
     Inr patch_gradients"
| "image_loop nd a gradients patch_mask_transformed transforms (i_image # rest) patch_gradients =
     and_then (select0 gradients i_image 3) (\<lambda>gradients_i.
     and_then (select0 patch_mask_transformed i_image 3) (\<lambda>mask_i.
     and_then (py_index transforms (int i_image)) (\<lambda>transform_i.
     and_then (reverse_transformation nd a gradients_i mask_i transform_i) (\<lambda>patch_gradients_i.
     and_then (inplace_op (+) patch_gradients patch_gradients_i) (\<lambda>patch_gradients.
       image_loop nd a gradients patch_mask_transformed transforms rest patch_gradients)))))"

text \<open>Lines 154-166: the loop over the batches, one gradient query per batch.\<close>

fun batch_loop ::
  "ndimage \<Rightarrow> attack \<Rightarrow> ndarray \<Rightarrow> ndarray \<Rightarrow> ndarray \<Rightarrow> transformation list \<Rightarrow>
   nat list \<Rightarrow> ndarray \<Rightarrow> py_error + ndarray" where
  "batch_loop nd a patched_images y_target patch_mask_transformed transforms [] patch_gradients =
     Inr patch_gradients"
| "batch_loop nd a patched_images y_target patch_mask_transformed transforms (i_batch # rest)
     patch_gradients =
     (let i_batch_start = int i_batch * batch_size a;
          i_batch_end = (int i_batch + 1) * batch_size a in
      and_then (getitem patched_images [Some (i_batch_start, i_batch_end)]) (\<lambda>x_batch.
      and_then (getitem y_target [Some (i_batch_start, i_batch_end)]) (\<lambda>y_batch.
        let gradients = loss_gradient (estimator a) x_batch y_batch in
      and_then (image_loop nd a gradients patch_mask_transformed transforms
                  [0..<nat (batch_size a)] patch_gradients) (\<lambda>patch_gradients.
        batch_loop nd a patched_images y_target patch_mask_transformed transforms rest
          patch_gradients))))"

text \<open>Lines 169-170: the gradient step on the patch and the clipping.\<close>

definition update_patch :: "attack \<Rightarrow> ndarray \<Rightarrow> py_error + attack" where
  "update_patch a patch_gradients =
     and_then (inplace_op (-) (patch a) (amap (\<lambda>v. v * learning_rate a) patch_gradients)) (\<lambda>p.
       Inr (a\<lparr>patch := amap (clip (fst (clip_values (estimator a)))
                                   (snd (clip_values (estimator a)))) p\<rparr>))"

text \<open>Lines 149-170: one pass of the body of the optimisation loop.\<close>

definition generate_step ::
  "ndimage \<Rightarrow> attack \<Rightarrow> ndarray \<Rightarrow> ndarray \<Rightarrow> rng \<Rightarrow> py_error + attack \<times> rng" where
  "generate_step nd a x y_target g =
     and_then (augment_images_with_random_patch nd a x (patch a) None g)
       (\<lambda>((patched_images, patch_mask_transformed, transforms), g').
     and_then (py_index (shape x) 0) (\<lambda>n.
     and_then (if batch_size a = 0 then Inl ZeroDivisionError
               else Inr (py_int (real n / real_of_int (batch_size a)))) (\<lambda>num_batches.
       let patch_gradients = zeros_like (patch a) in
     and_then (batch_loop nd a patched_images y_target patch_mask_transformed transforms
                 [0..<nat num_batches] patch_gradients) (\<lambda>patch_gradients.
     and_then (update_patch a patch_gradients) (\<lambda>a'. Inr (a', g'))))))"

fun generate_loop ::
  "ndimage \<Rightarrow> ndarray \<Rightarrow> ndarray \<Rightarrow> nat \<Rightarrow> attack \<Rightarrow> rng \<Rightarrow> py_error + attack \<times> rng" where
  "generate_loop nd x y_target 0 a g = Inr (a, g)"
| "generate_loop nd x y_target (Suc k) a g =
     and_then (generate_step nd a x y_target g) (\<lambda>(a', g').
       generate_loop nd x y_target k a' g')"

text \<open>
  \<open>generate\<close>, lines 130-172.  \<open>check_and_transform_label_format\<close> belongs to
  \<open>art.utils\<close>, which is not among the sources: it is the parameter \<open>label_format\<close>.
  The result is the pair the source returns, with the attack (whose patch was updated in
  place) and the generator state.
\<close>

definition generate ::
  "ndimage \<Rightarrow> (ndarray option \<Rightarrow> nat \<Rightarrow> py_error + ndarray) \<Rightarrow> attack \<Rightarrow> ndarray \<Rightarrow>
   ndarray option \<Rightarrow> rng \<Rightarrow> py_error + (ndarray \<times> ndarray) \<times> attack \<times> rng" where
  "generate nd label_format a x y g =
     (if length (shape x) = 2
      then Inl (ValueError ''Feature vectors detected. The adversarial patch can only be applied to data with spatial dimensions.'')
      else
        and_then (label_format y (nb_classes (estimator a))) (\<lambda>y_target.
        and_then (generate_loop nd x y_target (nat (max_iter a)) a g) (\<lambda>(a', g').
        and_then (get_circular_patch_mask a' 40) (\<lambda>mask.
          Inr ((patch a', mask), a', g')))))"

text \<open>\<open>apply_patch\<close>, lines 174-185.\<close>

definition apply_patch ::
  "ndimage \<Rightarrow> attack \<Rightarrow> ndarray \<Rightarrow> real \<Rightarrow> ndarray option \<Rightarrow> rng \<Rightarrow> py_error + ndarray \<times> rng" where
  "apply_patch nd a x scale patch_external g =
     (let p = (case patch_external of Some e \<Rightarrow> e | None \<Rightarrow> patch a) in
      and_then (augment_images_with_random_patch nd a x p (Some scale) g)
        (\<lambda>((patched_x, _, _), g'). Inr (patched_x, g')))"

text \<open>
  The rotation of the spatial grid that claim C8 speaks of, as \<open>np.rot90\<close> on the first
  two axes: \<open>rot90(m)[i, j] = m[j, w - 1 - i]\<close> for \<open>w\<close> columns.
\<close>

definition rot90 :: "ndarray \<Rightarrow> ndarray" where
  "rot90 m =
     (case shape m of
        h # w # rest \<Rightarrow>
          \<lparr>shape = w # h # rest,
           elem = (\<lambda>idx. case idx of
                            i # j # r \<Rightarrow> elem m (j # (w - 1 - i) # r)
                          | _ \<Rightarrow> 0)\<rparr>
      | _ \<Rightarrow> m)"

text \<open>
  A stand-in for \<open>scipy.ndimage\<close> with the library's shapes, used to run the attack on
  concrete inputs: rotation and shift return their input, zoom samples the nearest source
  element.
\<close>

definition nearest_ndimage :: ndimage where
  "nearest_ndimage =
     \<lparr>nd_rotate = (\<lambda>x angle axes. x),
      nd_zoom = (\<lambda>x zooms.
        \<lparr>shape = zoom_shape (shape x) zooms,
         elem = (\<lambda>idx. elem x (map2 (\<lambda>i z. nat \<lfloor>real i / z\<rfloor>) idx zooms))\<rparr>),
      nd_shift = (\<lambda>x s. x)\<rparr>"

text \<open>
  A stand-in classifier for concrete runs: its loss gradient is its input (the gradient of
  half the squared norm).
\<close>

definition identity_classifier :: "nat list \<Rightarrow> bool \<Rightarrow> real \<times> real \<Rightarrow> classifier" where
  "identity_classifier s cf cv =
     \<lparr>input_shape = s, channels_first = cf, clip_values = cv, nb_classes = 10,
      loss_gradient = (\<lambda>x y. x)\<rparr>"

text \<open>
  The largest offset along an axis that keeps the scaled patch inside the image, as
  lines 357-358 compute it.
\<close>

definition shift_max :: "attack \<Rightarrow> nat \<Rightarrow> real \<Rightarrow> real" where
  "shift_max a axis scale =
     (real (input_shape (estimator a) ! axis) - real (patch_shape a ! axis) * scale) / 2"

text \<open>
  The extent of an axis after scaling, rounded as lines 296-297 and the zoom do, and the
  offset that centres \<open>m\<close> cells in an axis of \<open>n\<close>.
\<close>

definition scaled_extent :: "nat \<Rightarrow> real \<Rightarrow> nat" where
  "scaled_extent n s = nat (py_round (real n * s))"

definition centre_offset :: "nat \<Rightarrow> nat \<Rightarrow> nat" where
  "centre_offset n m = (n - m) div 2"

text \<open>
  The attack with the default parameters of the source (\<open>rotation_max = 22.5\<close>,
  \<open>scale_min = 0.1\<close>, \<open>scale_max = 1.0\<close>, \<open>learning_rate = 5.0\<close>,
  \<open>max_iter = 500\<close>) on the stand-in classifier, channels last, inputs in \<open>[0, 1]\<close>.
\<close>

definition default_attack :: "nat list \<Rightarrow> int \<Rightarrow> py_error + attack" where
  "default_attack s bs =
     AdversarialPatchNumpy_init (identity_classifier s False (0, 1)) 0 (45 / 2) (1 / 10) 1 5 500 bs"

section \<open>Model conversion: the inferred reshape point\<close>

lemma convert_module_supported:
  "supported_module m \<Longrightarrow>
   \<exists>z. convert_module m = Inr z \<and> is_ZonoConv z = is_Conv2d m \<and>
       is_ZonoDenseLayer z = is_Linear m"
  by (cases m) auto

lemma convert_module_has_bias:
  "has_bias m \<Longrightarrow> m \<noteq> OtherModule \<Longrightarrow> \<exists>z. convert_module m = Inr z"
  by (cases m) auto

lemma convert_modules_Inr:
  "map convert_module ms = map Inr zs \<Longrightarrow> convert_modules ms acc = Inr (acc @ zs)"
proof (induction ms arbitrary: zs acc)
  case Nil
  then show ?case by simp
next
  case (Cons m ms)
  then obtain z zs' where zs: "zs = z # zs'" and m: "convert_module m = Inr z"
    and rest: "map convert_module ms = map Inr zs'"
    by (cases zs) auto
  show ?case by (simp add: m zs Cons.IH[OF rest])
qed

lemma convert_modules_error:
  "\<forall>p\<in>set pre. \<exists>z. convert_module p = Inr z \<Longrightarrow> convert_module m = Inl e \<Longrightarrow>
   convert_modules (pre @ m # post) acc = Inl e"
proof (induction pre arbitrary: acc)
  case Nil
  then show ?case by simp
next
  case (Cons p pre)
  then obtain z where "convert_module p = Inr z" by auto
  with Cons show ?case by simp
qed

lemma convert_modules_fails:
  "m \<in> set ms \<Longrightarrow> convert_module m = Inl e \<Longrightarrow> \<exists>e'. convert_modules ms acc = Inl e'"
proof (induction ms arbitrary: acc)
  case Nil
  then show ?case by simp
next
  case (Cons x ms)
  show ?case
  proof (cases "convert_module x")
    case (Inl e0)
    then show ?thesis by simp
  next
    case (Inr z)
    with Cons.prems have "m \<in> set ms" by auto
    from Cons.IH[OF this Cons.prems(2)] Inr show ?thesis by simp
  qed
qed

lemma supported_converted:
  "list_all supported_module ms \<Longrightarrow>
   \<exists>zs. map convert_module ms = map Inr zs \<and> map is_ZonoConv zs = map is_Conv2d ms \<and>
        map is_ZonoDenseLayer zs = map is_Linear ms"
proof (induction ms)
  case Nil
  show ?case by simp
next
  case (Cons m ms)
  then obtain zs where zs: "map convert_module ms = map Inr zs"
    "map is_ZonoConv zs = map is_Conv2d ms" "map is_ZonoDenseLayer zs = map is_Linear ms"
    by auto
  from Cons.prems obtain z where z: "convert_module m = Inr z" "is_ZonoConv z = is_Conv2d m"
    "is_ZonoDenseLayer z = is_Linear m"
    using convert_module_supported[of m] by auto
  show ?case
    by (rule exI[of _ "z # zs"]) (simp add: z zs)
qed

lemma dense_before_conv_kinds:
  "map is_ZonoConv zs = map is_Conv2d ms \<Longrightarrow> map is_ZonoDenseLayer zs = map is_Linear ms \<Longrightarrow>
   dense_before_conv zs = linear_before_conv ms"
proof (induction zs arbitrary: ms)
  case Nil
  then show ?case by simp
next
  case (Cons z zs)
  then obtain m ms' where ms: "ms = m # ms'" by (cases ms) auto
  with Cons.prems have k: "is_ZonoConv z = is_Conv2d m" "is_ZonoDenseLayer z = is_Linear m"
    and r: "map is_ZonoConv zs = map is_Conv2d ms'" "map is_ZonoDenseLayer zs = map is_Linear ms'"
    by simp_all
  have "list_ex is_ZonoConv zs = (True \<in> set (map is_ZonoConv zs))"
    by (auto simp: list_ex_iff)
  also have "\<dots> = list_ex is_Conv2d ms'"
    unfolding r(1) by (auto simp: list_ex_iff)
  finally have "list_ex is_ZonoConv zs = list_ex is_Conv2d ms'" .
  then show ?case
    by (simp add: ms k Cons.IH[OF r])
qed

lemma dense_before_conv_nth:
  "\<not> dense_before_conv zs \<Longrightarrow> i < j \<Longrightarrow> j < length zs \<Longrightarrow>
   is_ZonoDenseLayer (zs ! i) \<Longrightarrow> \<not> is_ZonoConv (zs ! j)"
proof (induction zs arbitrary: i j)
  case Nil
  then show ?case by simp
next
  case (Cons z zs)
  show ?case
  proof (cases i)
    case 0
    with Cons.prems obtain j' where j': "j = Suc j'" "j' < length zs"
      by (cases j) auto
    from Cons.prems 0 have "\<not> list_ex is_ZonoConv zs" by simp
    with j' show ?thesis by (auto simp: list_ex_iff)
  next
    case (Suc i')
    with Cons.prems obtain j' where j': "j = Suc j'" "i' < j'" "j' < length zs"
      by (cases j) auto
    from Cons.prems have "\<not> dense_before_conv zs" by simp
    from Cons.IH[OF this j'(2,3)] Cons.prems(4) Suc j' show ?thesis by simp
  qed
qed

lemma zono_kind_cases:
  "is_ZonoConv z \<Longrightarrow> \<not> is_ZonoDenseLayer z \<and> \<not> is_ZonoReLU z"
  "is_ZonoDenseLayer z \<Longrightarrow> \<not> is_ZonoConv z \<and> \<not> is_ZonoReLU z"
  "is_ZonoReLU z \<Longrightarrow> \<not> is_ZonoConv z \<and> \<not> is_ZonoDenseLayer z"
  by (cases z; simp)+

lemma reshape_step_supported:
  assumes sup: "\<not> dense_before_conv zs" and i: "i < length zs"
  shows "reshape_step zs i r = Inr (if reshape_candidate zs i then Some i else r)"
proof (cases "is_ZonoDenseLayer (zs ! i)")
  case False
  then show ?thesis by (simp add: reshape_step_def reshape_candidate_def)
next
  case dense: True
  have nc: "\<And>j. i < j \<Longrightarrow> j < length zs \<Longrightarrow> \<not> is_ZonoConv (zs ! j)"
    using dense_before_conv_nth[OF sup _ _ dense] by blast
  have self: "\<not> is_ZonoConv (zs ! i)" "\<not> is_ZonoReLU (zs ! i)"
    using zono_kind_cases(2)[OF dense] by simp_all
  have idx1: "py_index zs (int i - 1) = Inr (zs ! (if i = 0 then length zs - 1 else i - 1))"
    using i by (auto simp: py_index_def Let_def nat_diff_distrib')
  have n2: "nat (int (length zs) + (int i - 2)) = length zs + i - 2" if "2 \<le> length zs"
    using that by linarith
  have idx2: "py_index zs (int i - 2) = Inr (zs ! (if i < 2 then length zs + i - 2 else i - 2))"
    if "2 \<le> length zs"
    using i that by (auto simp: py_index_def Let_def nat_diff_distrib' n2)
  show ?thesis
  proof (cases "2 \<le> length zs")
    case False
    with i have "length zs = 1" "i = 0" by auto
    then show ?thesis
      using dense self idx1
      by (simp add: reshape_step_def reshape_candidate_def)
  next
    case True
    note idx2' = idx2[OF True]
    consider "i = 0" | "i = 1" | "2 \<le> i" by linarith
    then show ?thesis
    proof cases
      case 1
      have a: "\<not> is_ZonoConv (zs ! (length zs - 1))"
        using nc[of "length zs - 1"] True 1 by simp
      have b: "\<not> is_ZonoConv (zs ! (length zs - 2))"
      proof (cases "length zs = 2")
        case True
        then show ?thesis using self 1 by simp
      next
        case False
        then show ?thesis using nc[of "length zs - 2"] True 1 by simp
      qed
      show ?thesis
        using 1 i dense a b idx1 idx2'
        by (simp add: reshape_step_def reshape_candidate_def Let_def)
    next
      case 2
      have b: "\<not> is_ZonoConv (zs ! (length zs - 1))"
      proof (cases "length zs = 2")
        case True
        then show ?thesis using self 2 by simp
      next
        case False
        then show ?thesis using nc[of "length zs - 1"] True 2 by simp
      qed
      have c: "is_ZonoConv (zs ! 0) \<Longrightarrow> \<not> is_ZonoReLU (zs ! 0)"
        using zono_kind_cases(1) by blast
      show ?thesis
        using 2 i dense b c idx1 idx2'
        by (auto simp add: reshape_step_def reshape_candidate_def Let_def)
    next
      case 3
      have c: "is_ZonoConv (zs ! (i - 1)) \<Longrightarrow> \<not> is_ZonoReLU (zs ! (i - 1))"
        using zono_kind_cases(1) by blast
      show ?thesis
        using 3 i dense c idx1 idx2'
        by (auto simp add: reshape_step_def reshape_candidate_def Let_def)
    qed
  qed
qed

lemma reshape_loop_supported:
  assumes sup: "\<not> dense_before_conv zs" and idxs: "\<forall>i\<in>set ns. i < length zs"
  shows "reshape_loop zs ns r =
         Inr (case filter (reshape_candidate zs) ns of [] \<Rightarrow> r | c # cs \<Rightarrow> Some (last (c # cs)))"
  using idxs
proof (induction ns arbitrary: r)
  case Nil
  show ?case by simp
next
  case (Cons i ns)
  then have i: "i < length zs" and rest: "\<forall>i\<in>set ns. i < length zs" by simp_all
  show ?case
    by (simp add: reshape_step_supported[OF sup i] Cons.IH[OF rest] split: list.splits)
qed

lemma candidate_unique:
  assumes sup: "\<not> dense_before_conv zs"
    and ci: "reshape_candidate zs i" and cj: "reshape_candidate zs j" and lt: "i < j"
  shows False
proof -
  from ci have di: "is_ZonoDenseLayer (zs ! i)" by (simp add: reshape_candidate_def)
  from cj have j: "j < length zs" by (simp add: reshape_candidate_def)
  have nc: "\<And>k. i < k \<Longrightarrow> k < length zs \<Longrightarrow> \<not> is_ZonoConv (zs ! k)"
    using dense_before_conv_nth[OF sup _ _ di] by blast
  have self: "\<not> is_ZonoConv (zs ! i)" "\<not> is_ZonoReLU (zs ! i)"
    using zono_kind_cases(2)[OF di] by simp_all
  from cj consider "1 \<le> j" "is_ZonoConv (zs ! (j - 1))"
    | "2 \<le> j" "is_ZonoReLU (zs ! (j - 1))" "is_ZonoConv (zs ! (j - 2))"
    by (auto simp: reshape_candidate_def)
  then show False
  proof cases
    case 1
    show False
    proof (cases "j - 1 = i")
      case True with 1 self show False by simp
    next
      case False
      with lt have "i < j - 1" by linarith
      moreover from j have "j - 1 < length zs" by linarith
      ultimately show False using nc[of "j - 1"] 1 by blast
    qed
  next
    case 2
    have "j - 1 \<noteq> i" using 2 self by auto
    with lt have gt: "i \<le> j - 2" by linarith
    show False
    proof (cases "j - 2 = i")
      case True with 2 self show False by simp
    next
      case False
      with gt have "i < j - 2" by linarith
      moreover from j have "j - 2 < length zs" by linarith
      ultimately show False using nc[of "j - 2"] 2 by blast
    qed
  qed
qed

lemma find_filter_conv:
  "find P xs = (case filter P xs of [] \<Rightarrow> None | x # _ \<Rightarrow> Some x)"
  by (induction xs) simp_all

lemma filter_candidates_short:
  assumes sup: "\<not> dense_before_conv zs"
  shows "filter (reshape_candidate zs) [0..<n] = [] \<or>
         (\<exists>c. filter (reshape_candidate zs) [0..<n] = [c])"
proof (induction n)
  case 0
  show ?case by simp
next
  case (Suc n)
  show ?case
  proof (cases "reshape_candidate zs n")
    case False
    with Suc show ?thesis by simp
  next
    case True
    have "filter (reshape_candidate zs) [0..<n] = []"
    proof (rule ccontr)
      assume "filter (reshape_candidate zs) [0..<n] \<noteq> []"
      then obtain c where "c \<in> set (filter (reshape_candidate zs) [0..<n])"
        by (cases "filter (reshape_candidate zs) [0..<n]") auto
      then have "reshape_candidate zs c" "c < n" by auto
      with candidate_unique[OF sup _ True] show False by blast
    qed
    with True show ?thesis by simp
  qed
qed

lemma reshape_loop_first:
  assumes sup: "\<not> dense_before_conv zs"
  shows "reshape_loop zs [0..<length zs] None = Inr (first_reshape_point zs)"
proof -
  have "reshape_loop zs [0..<length zs] None =
        Inr (case filter (reshape_candidate zs) [0..<length zs] of
               [] \<Rightarrow> None | c # cs \<Rightarrow> Some (last (c # cs)))"
    by (rule reshape_loop_supported[OF sup]) simp
  also have "\<dots> = Inr (first_reshape_point zs)"
    using filter_candidates_short[OF sup, of "length zs"]
    by (auto simp: first_reshape_point_def find_filter_conv)
  finally show ?thesis .
qed

text \<open>
  Claim C4, as the code has it.  For channels-first data and a recorded layer sequence of
  convolution, dense and ReLU layers, every convolution and dense layer carrying a bias, in
  which no dense layer comes before a convolution (the pattern the estimator supports),
  conversion succeeds, converts every layer in order, and the reshape point is the first
  dense layer immediately preceded by a convolution, or by a ReLU itself preceded by a
  convolution, when there is one, and is left unset otherwise.  For every sequence with a
  layer of another type, conversion fails and returns no model; the failure is the
  unsupported-layer error when every layer recorded before the first such layer carries a
  bias.
\<close>

theorem converter_reshape_point:
  "(list_all supported_module ms \<and> \<not> linear_before_conv ms \<longrightarrow>
      (\<exists>zs. map convert_module ms = map Inr zs \<and>
            ConvertedModel_init ms True =
              Inr \<lparr>ops = zs, reshape_op_num = first_reshape_point zs,
                   forward_mode = ''abstract''\<rparr>)) \<and>
   (OtherModule \<in> set ms \<longrightarrow>
      (\<exists>e. ConvertedModel_init ms cf = Inl e) \<and>
      (list_all has_bias (takeWhile (\<lambda>m. m \<noteq> OtherModule) ms) \<longrightarrow>
         ConvertedModel_init ms True =
           Inl (ValueError ''Supported Operations are Conv2D, Linear, and RelU'')))"
proof (intro conjI impI)
  assume a: "list_all supported_module ms \<and> \<not> linear_before_conv ms"
  then obtain zs where zs: "map convert_module ms = map Inr zs"
    and k: "map is_ZonoConv zs = map is_Conv2d ms" "map is_ZonoDenseLayer zs = map is_Linear ms"
    using supported_converted[of ms] by blast
  from a dense_before_conv_kinds[OF k] have sup: "\<not> dense_before_conv zs" by simp
  have c: "convert_modules ms [] = Inr zs"
    using convert_modules_Inr[OF zs, of "[]"] by simp
  have "ConvertedModel_init ms True =
          Inr \<lparr>ops = zs, reshape_op_num = first_reshape_point zs, forward_mode = ''abstract''\<rparr>"
    by (simp add: ConvertedModel_init_def c reshape_loop_first[OF sup])
  with zs show "\<exists>zs. map convert_module ms = map Inr zs \<and>
            ConvertedModel_init ms True =
              Inr \<lparr>ops = zs, reshape_op_num = first_reshape_point zs,
                   forward_mode = ''abstract''\<rparr>"
    by blast
next
  assume o: "OtherModule \<in> set ms"
  have "\<exists>e'. convert_modules ms [] = Inl e'"
    by (rule convert_modules_fails[OF o]) simp
  then show "\<exists>e. ConvertedModel_init ms cf = Inl e"
    by (auto simp: ConvertedModel_init_def)
next
  assume o: "OtherModule \<in> set ms"
    and b: "list_all has_bias (takeWhile (\<lambda>m. m \<noteq> OtherModule) ms)"
  define pre where "pre = takeWhile (\<lambda>m. m \<noteq> OtherModule) ms"
  define post where "post = tl (dropWhile (\<lambda>m. m \<noteq> OtherModule) ms)"
  from o have "dropWhile (\<lambda>m. m \<noteq> OtherModule) ms \<noteq> []" by (simp add: dropWhile_eq_Nil_conv)
  moreover have "dropWhile (\<lambda>m. m \<noteq> OtherModule) ms \<noteq> [] \<Longrightarrow>
                 hd (dropWhile (\<lambda>m. m \<noteq> OtherModule) ms) = OtherModule"
    using hd_dropWhile[of "\<lambda>m. m \<noteq> OtherModule" ms] by simp
  ultimately have d: "dropWhile (\<lambda>m. m \<noteq> OtherModule) ms = OtherModule # post"
    by (cases "dropWhile (\<lambda>m. m \<noteq> OtherModule) ms") (auto simp: post_def)
  have ms: "ms = pre @ OtherModule # post"
    using takeWhile_dropWhile_id[of "\<lambda>m. m \<noteq> OtherModule" ms] d by (simp add: pre_def)
  have "\<forall>p\<in>set pre. \<exists>z. convert_module p = Inr z"
  proof
    fix p assume p: "p \<in> set pre"
    then have "p \<noteq> OtherModule" by (auto simp: pre_def dest: set_takeWhileD)
    moreover from b p have "has_bias p" by (simp add: pre_def list_all_iff)
    ultimately show "\<exists>z. convert_module p = Inr z" by (rule convert_module_has_bias[rotated])
  qed
  from convert_modules_error[OF this, of OtherModule _ post "[]"]
  have "convert_modules ms [] = Inl (ValueError ''Supported Operations are Conv2D, Linear, and RelU'')"
    by (simp add: ms)
  then show "ConvertedModel_init ms True =
           Inl (ValueError ''Supported Operations are Conv2D, Linear, and RelU'')"
    by (simp add: ConvertedModel_init_def)
qed

text \<open>
  Witness for C4: a convolution, two dense layers and their activations, all with a bias,
  convert with the reshape point at index 2; a sequence holding another layer type is
  refused, here before the dense layer without a bias behind it is reached.
\<close>

theorem converter_reshape_point_witness:
  "ConvertedModel_init [Conv2d (1::nat) (Some (10::nat)), ReLU, Linear 2 (Some 20), ReLU,
                        Linear 3 (Some 30)] True =
     Inr \<lparr>ops = [ZonoConv 1 10, ZonoReLU, ZonoDenseLayer 2 20, ZonoReLU, ZonoDenseLayer 3 30],
          reshape_op_num = Some 2, forward_mode = ''abstract''\<rparr> \<and>
   ConvertedModel_init [Conv2d (1::nat) (Some (10::nat)), OtherModule, Linear 2 None] True =
     Inl (ValueError ''Supported Operations are Conv2D, Linear, and RelU'')"
  using converter_reshape_point
          [of "[Conv2d (1::nat) (Some (10::nat)), ReLU, Linear 2 (Some 20), ReLU, Linear 3 (Some 30)]"]
    converter_reshape_point
          [of "[Conv2d (1::nat) (Some (10::nat)), OtherModule, Linear 2 None]" True]
  by (auto simp: first_reshape_point_def reshape_candidate_def Cons_eq_map_conv)

text \<open>
  Counterexample to C4 as stated.  The loop keeps the last qualifying dense layer, not the
  first: for convolution, dense, convolution, dense it records index 3 while the first
  qualifying dense layer is at index 1.  A network of dense layers only gets no reshape
  point at all.
\<close>

theorem converter_first_dense_counterexample:
  "ConvertedModel_init [Conv2d (1::nat) (Some (10::nat)), Linear 2 (Some 20),
                        Conv2d 3 (Some 30), Linear 4 (Some 40)] True =
     Inr \<lparr>ops = [ZonoConv 1 10, ZonoDenseLayer 2 20, ZonoConv 3 30, ZonoDenseLayer 4 40],
          reshape_op_num = Some 3, forward_mode = ''abstract''\<rparr> \<and>
   first_reshape_point [ZonoConv (1::nat) (10::nat), ZonoDenseLayer 2 20, ZonoConv 3 30,
                        ZonoDenseLayer 4 40] = Some 1 \<and>
   ConvertedModel_init [Linear (1::nat) (Some (10::nat)), ReLU, Linear 2 (Some 20)] True =
     Inr \<lparr>ops = [ZonoDenseLayer 1 10, ZonoReLU, ZonoDenseLayer 2 20],
          reshape_op_num = None, forward_mode = ''abstract''\<rparr>"
  by (simp add: ConvertedModel_init_def reshape_step_def py_index_def
      first_reshape_point_def reshape_candidate_def upt_conv_Cons)

section \<open>Certification: the decision is the conjunction of the per-class lower bounds\<close>

lemma py_index_nat: "i < length xs \<Longrightarrow> py_index xs (int i) = Inr (xs ! i)"
  by (simp add: py_index_def)

lemma eps_difference_rows:
  assumes "\<forall>row\<in>set E. length row = n" and "p < n" and "k < n"
  shows "eps_difference E (int p) (int k) = Inr (map (\<lambda>row. row ! p - row ! k) E)"
  using assms(1)
proof (induction E)
  case Nil
  show ?case by simp
next
  case (Cons row E)
  then have "length row = n" and "\<forall>row\<in>set E. length row = n" by simp_all
  with Cons.IH assms(2,3) show ?case by (simp add: py_index_nat)
qed

lemma certify_via_subtraction_lower_bound:
  assumes "length c = n" and "\<forall>row\<in>set E. length row = n" and "p < n" and "k < n"
  shows "certify_via_subtraction (int p) (int k) c E =
         Inr (0 < (c ! p - c ! k) - (\<Sum>row\<leftarrow>E. \<bar>row ! p - row ! k\<bar>))"
  using assms
  by (simp add: certify_via_subtraction_def py_index_nat eps_difference_rows [OF assms(2-4)]
      comp_def)

lemma certify_loop_results:
  assumes "length c = n" and "\<forall>row\<in>set E. length row = n" and "p < n"
    and "\<forall>k\<in>set ks. k < n"
  shows "certify_loop ks (int p) c E acc =
         Inr (acc @ map (\<lambda>k. 0 < (c ! p - c ! k) - (\<Sum>row\<leftarrow>E. \<bar>row ! p - row ! k\<bar>))
                        (filter (\<lambda>k. k \<noteq> p) ks))"
  using assms(4)
proof (induction ks arbitrary: acc)
  case Nil
  show ?case by simp
next
  case (Cons k ks)
  then have k: "k < n" and rest: "\<forall>k\<in>set ks. k < n" by simp_all
  show ?case
    by (simp add: Cons.IH [OF rest]
        certify_via_subtraction_lower_bound [OF assms(1,2,3) k])
qed

text \<open>
  Claim C2.  Let the forward pass return a final-layer zonotope over \<open>n = nb_classes\<close> logits
  and let \<open>p\<close> be a class.  Then \<open>certify\<close> returns true exactly when, for every class
  \<open>k \<noteq> p\<close>, the interval lower bound of \<open>logit[p] - logit[k]\<close> (the difference of
  the centers minus the sum of the absolute differenced error terms) is strictly positive;
  one failing class makes it return false.
\<close>

theorem certify_iff_all_lower_bounds_positive:
  assumes "forward cent eps = Inr (c, E)"
    and "length c = n" and "\<forall>row\<in>set E. length row = n"
    and "p < n"
  shows "certify forward n cent eps (int p) =
         Inr (\<forall>k<n. k \<noteq> p \<longrightarrow>
                0 < (c ! p - c ! k) - (\<Sum>row\<leftarrow>E. \<bar>row ! p - row ! k\<bar>))"
proof -
  have "certify_loop [0..<n] (int p) c E [] =
        Inr (map (\<lambda>k. 0 < (c ! p - c ! k) - (\<Sum>row\<leftarrow>E. \<bar>row ! p - row ! k\<bar>))
                 (filter (\<lambda>k. k \<noteq> p) [0..<n]))"
    using certify_loop_results [OF assms(2,3,4), of "[0..<n]" "[]"] by simp
  then show ?thesis
    using assms(1) by (auto simp: certify_def list_all_iff)
qed

text \<open>
  Witness for C2: three classes and two error terms, once with every margin positive and
  once with the margin against class 2 lost.
\<close>

theorem certify_iff_all_lower_bounds_positive_witness:
  "certify (\<lambda>(x::unit) (e::unit). Inr ([5, 1, 2], [[1, 0, 1], [0, 1, 0]])) 3 () () (int 0) = Inr True \<and>
   certify (\<lambda>(x::unit) (e::unit). Inr ([5, 1, 2], [[1, 0, 1], [0, 1, 3]])) 3 () () (int 0) = Inr False"
proof -
  have t: "(\<forall>k<(3::nat). P k) = (P 0 \<and> P 1 \<and> P 2)" for P
    by (auto simp: less_Suc_eq numeral_3_eq_3 numeral_2_eq_2)
  show ?thesis
    using certify_iff_all_lower_bounds_positive
            [of "\<lambda>(x::unit) (e::unit). Inr ([5, 1, 2], [[1, 0, 1], [0, 1, 0]])" "()" "()"
                "[5, 1, 2]" "[[1, 0, 1], [0, 1, 0]]" 3 0]
          certify_iff_all_lower_bounds_positive
            [of "\<lambda>(x::unit) (e::unit). Inr ([5, 1, 2], [[1, 0, 1], [0, 1, 3]])" "()" "()"
                "[5, 1, 2]" "[[1, 0, 1], [0, 1, 3]]" 3 0]
    by (simp add: t)
qed




section \<open>Adversarial patch: basic facts\<close>

lemma and_then_Inl [simp]: "and_then (Inl e) f = Inl e"
  by (simp add: and_then_def)

lemma and_then_Inr [simp]: "and_then (Inr v) f = f v"
  by (simp add: and_then_def)

lemma and_then_eq_Inr: "and_then m f = Inr r \<longleftrightarrow> (\<exists>v. m = Inr v \<and> f v = Inr r)"
  by (cases m) simp_all

lemma py_index_Inr: "py_index xs i = Inr v \<Longrightarrow> - int (length xs) \<le> i \<and> i < int (length xs)"
  by (auto simp: py_index_def split: if_splits)

lemma py_index_in_range: "i < length xs \<Longrightarrow> py_index xs (int i) = Inr (xs ! i)"
  by (simp add: py_index_def)

lemma check_params_Inr:
  "check_params rot smin smax lr iters bs = Inr u \<longleftrightarrow>
   0 \<le> rot \<and> rot \<le> 180 \<and> 0 \<le> smin \<and> smin \<le> smax \<and> smax \<le> 1 \<and> 0 < lr \<and> 0 < iters \<and> 0 < bs"
  by (auto simp: check_params_def)

lemma init_fields:
  assumes "AdversarialPatchNumpy_init c tgt rot smin smax lr iters bs = Inr a"
  shows "estimator a = c" and "patch_shape a = input_shape c" and "image_shape a = input_shape c"
    and "i_h a = (if channels_first c then 1 else 0)"
    and "i_w a = (if channels_first c then 2 else 1)"
    and "0 \<le> rotation_max a" and "rotation_max a \<le> 180"
    and "0 \<le> scale_min a" and "scale_min a \<le> scale_max a" and "scale_max a \<le> 1"
    and "0 < learning_rate a" and "0 < max_iter a" and "0 < batch_size a"
    and "3 \<le> length (input_shape c)"
    and "shape (patch a) = input_shape c"
proof -
  from assms obtain u v1 v2 v3 where
    cp: "check_params rot smin smax lr iters bs = Inr u"
    and i3: "py_index (input_shape c) (if channels_first c then 0 else 2) = Inr v3"
    and i2: "py_index (input_shape c) (if channels_first c then 2 else 1) = Inr v2"
    and a: "a = \<lparr>estimator = c, target = tgt, rotation_max = rot, scale_min = smin,
            scale_max = smax, learning_rate = lr, max_iter = iters, batch_size = bs,
            image_shape = input_shape c,
            i_h = (if channels_first c then 1 else 0),
            i_w = (if channels_first c then 2 else 1),
            patch_shape = input_shape c,
            patch = amap (\<lambda>v. v * ((snd (clip_values c) - fst (clip_values c)) / 2 + fst (clip_values c)))
                      (full (input_shape c) 1)\<rparr>"
    unfolding AdversarialPatchNumpy_init_def and_then_eq_Inr Let_def by auto
  from cp have r: "0 \<le> rot \<and> rot \<le> 180 \<and> 0 \<le> smin \<and> smin \<le> smax \<and> smax \<le> 1 \<and> 0 < lr \<and> 0 < iters \<and> 0 < bs"
    by (simp add: check_params_Inr)
  from py_index_Inr[OF i3] py_index_Inr[OF i2] have len: "3 \<le> length (input_shape c)"
    by (auto split: if_splits)
  show "estimator a = c" and "patch_shape a = input_shape c" and "image_shape a = input_shape c"
    and "i_h a = (if channels_first c then 1 else 0)"
    and "i_w a = (if channels_first c then 2 else 1)"
    and "0 \<le> rotation_max a" and "rotation_max a \<le> 180"
    and "0 \<le> scale_min a" and "scale_min a \<le> scale_max a" and "scale_max a \<le> 1"
    and "0 < learning_rate a" and "0 < max_iter a" and "0 < batch_size a"
    and "3 \<le> length (input_shape c)"
    and "shape (patch a) = input_shape c"
    using r len by (simp_all add: a amap_def full_def)
qed

lemma init_succeeds:
  assumes "0 \<le> rot" "rot \<le> 180" "0 \<le> smin" "smin \<le> smax" "smax \<le> 1" "0 < lr" "0 < iters" "0 < bs"
    and "3 \<le> length (input_shape c)"
  shows "\<exists>a. AdversarialPatchNumpy_init c tgt rot smin smax lr iters bs = Inr a"
proof -
  have cp: "check_params rot smin smax lr iters bs = Inr ()"
    using assms by (simp add: check_params_Inr)
  have ix: "\<And>k. k < 3 \<Longrightarrow> \<exists>v. py_index (input_shape c) (int k) = Inr v"
    using assms(9) by (simp add: py_index_def)
  from ix[of 0] ix[of 1] ix[of 2] show ?thesis
    unfolding AdversarialPatchNumpy_init_def cp
    by (auto simp: Let_def)
qed

lemma unpack2_patch_shape:
  assumes "3 \<le> length s"
  shows "unpack2 (take 2 (drop 1 s)) = Inr (s ! 1, s ! 2)"
    and "unpack2 (take 2 s) = Inr (s ! 0, s ! 1)"
proof -
  from assms obtain x y z r where "s = x # y # z # r"
    by (cases s; cases "tl s"; cases "tl (tl s)") auto
  then show "unpack2 (take 2 (drop 1 s)) = Inr (s ! 1, s ! 2)"
    and "unpack2 (take 2 s) = Inr (s ! 0, s ! 1)"
    by (simp_all add: unpack2_def numeral_2_eq_2)
qed

lemma scale_np_one:
  assumes "AdversarialPatchNumpy_init c tgt rot smin smax lr iters bs = Inr a"
  shows "scale_np nd a x 1 = Inr x"
proof -
  from init_fields(2,14)[OF assms] have "3 \<le> length (patch_shape a)" by simp
  from unpack2_patch_shape[OF this] show ?thesis
    by (simp add: scale_np_def Let_def)
qed

lemma nearest_ndimage_shapes: "ndimage_shapes nearest_ndimage"
  by (simp add: ndimage_shapes_def nearest_ndimage_def)

lemma default_attack_init:
  "0 < bs \<Longrightarrow> default_attack [h, w, ch] bs =
     Inr \<lparr>estimator = identity_classifier [h, w, ch] False (0, 1), target = 0,
          rotation_max = 45 / 2, scale_min = 1 / 10, scale_max = 1, learning_rate = 5,
          max_iter = 500, batch_size = bs, image_shape = [h, w, ch], i_h = 0, i_w = 1,
          patch_shape = [h, w, ch],
          patch = amap (\<lambda>v. v * (1 / 2)) (full [h, w, ch] 1)\<rparr>"
  by (simp add: default_attack_def AdversarialPatchNumpy_init_def check_params_def
      identity_classifier_def py_index_def Let_def)

text \<open>
  Claim C10.  For every attack the constructor returns, every tensor \<open>x\<close> and any
  interpolation library, scaling by exactly 1 returns \<open>x\<close> itself: neither branch of
  \<open>_scale\<close> that interpolates, pads or crops is taken.
\<close>

theorem scale_one_is_identity:
  assumes "AdversarialPatchNumpy_init c tgt rot smin smax lr iters bs = Inr a"
  shows "scale_np nd a x 1 = Inr x"
  by (rule scale_np_one[OF assms])

text \<open>
  Witness for C10: the default attack on 4 x 4 x 1 images returns a 2 x 3 array of sevens
  unchanged.
\<close>

theorem scale_one_is_identity_witness:
  "and_then (default_attack [4, 4, 1] 16)
     (\<lambda>a. scale_np nearest_ndimage a (full [2, 3] 7) 1) = Inr (full [2, 3] 7)"
proof -
  obtain a where da: "default_attack [4, 4, 1] 16 = Inr a"
    by (simp add: default_attack_init)
  then have init: "AdversarialPatchNumpy_init (identity_classifier [4, 4, 1] False (0, 1)) 0
      (45 / 2) (1 / 10) 1 5 500 16 = Inr a"
    by (simp add: default_attack_def)
  from scale_one_is_identity[OF init, of nearest_ndimage "full [2, 3] 7"] show ?thesis
    unfolding da by simp
qed

section \<open>Adversarial patch: the sampled transformation\<close>

lemma uniform_between:
  assumes "a \<le> b" "0 \<le> shd g" "shd g < 1"
  shows "a \<le> fst (uniform a b g)" and "fst (uniform a b g) \<le> b"
proof -
  have "0 \<le> (b - a) * shd g"
    using assms by (intro mult_nonneg_nonneg) simp_all
  then show "a \<le> fst (uniform a b g)" by (simp add: uniform_def)
  have "(b - a) * shd g \<le> (b - a) * 1"
    using assms by (intro mult_left_mono) simp_all
  then show "fst (uniform a b g) \<le> b" by (simp add: uniform_def)
qed

lemma uniform_symmetric:
  assumes "0 \<le> m" "0 \<le> shd g" "shd g < 1"
  shows "\<bar>fst (uniform (- m) m g)\<bar> \<le> m"
proof -
  from assms(1) have "- m \<le> m" by simp
  from uniform_between[OF this assms(2,3)] show ?thesis by (simp add: abs_le_iff)
qed

lemma uniform_snd [simp]: "snd (uniform a b g) = stl g"
  by (simp add: uniform_def)

lemma sset_draws:
  assumes "\<forall>u\<in>sset g. 0 \<le> u \<and> u < (1::real)"
  shows "0 \<le> shd g" "shd g < 1" "0 \<le> shd (stl g)" "shd (stl g) < 1"
    "0 \<le> shd (stl (stl g))" "shd (stl (stl g)) < 1"
    "0 \<le> shd (stl (stl (stl g)))" "shd (stl (stl (stl g))) < 1"
proof -
  have "shd g \<in> sset g" by (simp add: shd_sset)
  moreover have "shd (stl g) \<in> sset g" by (simp add: shd_sset stl_sset)
  moreover have "shd (stl (stl g)) \<in> sset g" by (simp add: shd_sset stl_sset)
  moreover have "shd (stl (stl (stl g))) \<in> sset g" by (simp add: shd_sset stl_sset)
  ultimately show "0 \<le> shd g" "shd g < 1" "0 \<le> shd (stl g)" "shd (stl g) < 1"
    "0 \<le> shd (stl (stl g))" "shd (stl (stl g)) < 1"
    "0 \<le> shd (stl (stl (stl g)))" "shd (stl (stl (stl g))) < 1"
    using assms by blast+
qed

lemma py_index_nat_Inr:
  "py_index xs (int i) = Inr v \<Longrightarrow> i < length xs \<and> v = xs ! i"
  by (auto simp: py_index_def split: if_splits)

text \<open>
  What a returning call of the sampler has recorded: the drawn angle, the scale, and either
  the two drawn offsets or the fixed entry \<open>shift\<close>.
\<close>

lemma random_transformation_record:
  assumes run: "random_transformation nd a p override g = Inr ((p', m', t), g')"
  defines "angle \<equiv> fst (uniform (- rotation_max a) (rotation_max a) g)"
    and "sg \<equiv> (case override of
                  None \<Rightarrow> uniform (scale_min a) (scale_max a)
                            (snd (uniform (- rotation_max a) (rotation_max a) g))
                | Some s \<Rightarrow> (s, snd (uniform (- rotation_max a) (rotation_max a) g)))"
  defines "smh \<equiv> shift_max a (i_h a) (fst sg)" and "smw \<equiv> shift_max a (i_w a) (fst sg)"
  shows "i_h a < length (input_shape (estimator a)) \<and> i_h a < length (patch_shape a) \<and>
         i_w a < length (input_shape (estimator a)) \<and> i_w a < length (patch_shape a) \<and>
         t = (if 0 < smh \<and> 0 < smw
              then [''rotate'' \<mapsto> Float angle, ''scale'' \<mapsto> Float (fst sg),
                    ''shift_1'' \<mapsto> Float (fst (uniform (- smh) smh (snd sg))),
                    ''shift_2'' \<mapsto> Float (fst (uniform (- smw) smw (stl (snd sg))))]
              else [''rotate'' \<mapsto> Float angle, ''scale'' \<mapsto> Float (fst sg),
                    ''shift'' \<mapsto> Tuple [0, 0, 0]])"
proof -
  note Y = run[unfolded random_transformation_def Let_def case_prod_beta and_then_eq_Inr]
  from Y obtain pa ma in_h p_h in_w p_w where
    ih: "py_index (input_shape (estimator a)) (int (i_h a)) = Inr in_h"
    and ph: "py_index (patch_shape a) (int (i_h a)) = Inr p_h"
    and iw: "py_index (input_shape (estimator a)) (int (i_w a)) = Inr in_w"
    and pw: "py_index (patch_shape a) (int (i_w a)) = Inr p_w"
    and F: "(if 0 < (real in_h - real p_h * fst sg) / 2 \<and> 0 < (real in_w - real p_w * fst sg) / 2
            then and_then
                   (shift_np nd a pa
                      (fst (uniform (- ((real in_h - real p_h * fst sg) / 2))
                              ((real in_h - real p_h * fst sg) / 2) (snd sg)))
                      (fst (uniform (- ((real in_w - real p_w * fst sg) / 2))
                              ((real in_w - real p_w * fst sg) / 2)
                              (snd (uniform (- ((real in_h - real p_h * fst sg) / 2))
                                      ((real in_h - real p_h * fst sg) / 2) (snd sg))))))
                   (\<lambda>x. and_then
                          (shift_np nd a ma
                             (fst (uniform (- ((real in_h - real p_h * fst sg) / 2))
                                     ((real in_h - real p_h * fst sg) / 2) (snd sg)))
                             (fst (uniform (- ((real in_w - real p_w * fst sg) / 2))
                                     ((real in_w - real p_w * fst sg) / 2)
                                     (snd (uniform (- ((real in_h - real p_h * fst sg) / 2))
                                             ((real in_h - real p_h * fst sg) / 2) (snd sg))))))
                          (\<lambda>xa. Inr ((fst x, fst xa,
                                      [''rotate'' \<mapsto> Float angle, ''scale'' \<mapsto> Float (fst sg),
                                       ''shift_1'' \<mapsto> Float (fst (snd xa)),
                                       ''shift_2'' \<mapsto> Float (snd (snd xa))]),
                                     snd (uniform (- ((real in_w - real p_w * fst sg) / 2))
                                            ((real in_w - real p_w * fst sg) / 2)
                                            (snd (uniform (- ((real in_h - real p_h * fst sg) / 2))
                                                    ((real in_h - real p_h * fst sg) / 2) (snd sg)))))))
            else Inr ((pa, ma,
                       [''rotate'' \<mapsto> Float angle, ''scale'' \<mapsto> Float (fst sg),
                        ''shift'' \<mapsto> Tuple [0, 0, 0]]), snd sg)) = Inr ((p', m', t), g')"
    unfolding angle_def sg_def by blast
  note v = py_index_nat_Inr[OF ih] py_index_nat_Inr[OF ph] py_index_nat_Inr[OF iw]
    py_index_nat_Inr[OF pw]
  have sm: "(real in_h - real p_h * fst sg) / 2 = smh" "(real in_w - real p_w * fst sg) / 2 = smw"
    using v by (simp_all add: smh_def smw_def shift_max_def)
  note F' = F[unfolded sm]
  have "t = (if 0 < smh \<and> 0 < smw
              then [''rotate'' \<mapsto> Float angle, ''scale'' \<mapsto> Float (fst sg),
                    ''shift_1'' \<mapsto> Float (fst (uniform (- smh) smh (snd sg))),
                    ''shift_2'' \<mapsto> Float (fst (uniform (- smw) smw (stl (snd sg))))]
              else [''rotate'' \<mapsto> Float angle, ''scale'' \<mapsto> Float (fst sg),
                    ''shift'' \<mapsto> Tuple [0, 0, 0]])"
  proof (cases "0 < smh \<and> 0 < smw")
    case True
    with F' show ?thesis
      by (auto simp: and_then_eq_Inr shift_np_def Let_def)
  next
    case False
    with F' show ?thesis by auto
  qed
  with v show ?thesis by simp
qed

text \<open>
  Claim C7.  For every attack the constructor returns, every random source with values in
  \<open>[0, 1)\<close> and every call of the sampler that returns: the recorded angle lies in
  \<open>[-rotation_max, rotation_max]\<close>; the recorded scale is the override when one is
  given and lies in \<open>[scale_min, scale_max]\<close> otherwise; and when both maximum offsets
  are positive the two recorded shifts lie within them, while otherwise no shift is drawn
  and the record holds the fixed entry \<open>shift = (0, 0, 0)\<close>.
\<close>

theorem random_transformation_ranges:
  assumes init: "AdversarialPatchNumpy_init c tgt rot smin smax lr iters bs = Inr a"
    and unit: "\<forall>u\<in>sset g. 0 \<le> u \<and> u < 1"
    and run: "random_transformation nd a p override g = Inr ((p', m', t), g')"
  shows "\<exists>angle scale.
           t ''rotate'' = Some (Float angle) \<and>
           - rotation_max a \<le> angle \<and> angle \<le> rotation_max a \<and>
           t ''scale'' = Some (Float scale) \<and>
           (case override of
              Some s \<Rightarrow> scale = s
            | None \<Rightarrow> scale_min a \<le> scale \<and> scale \<le> scale_max a) \<and>
           (if 0 < shift_max a (i_h a) scale \<and> 0 < shift_max a (i_w a) scale
            then \<exists>shift_h shift_w.
                   t ''shift_1'' = Some (Float shift_h) \<and> t ''shift_2'' = Some (Float shift_w) \<and>
                   \<bar>shift_h\<bar> \<le> shift_max a (i_h a) scale \<and>
                   \<bar>shift_w\<bar> \<le> shift_max a (i_w a) scale
            else t ''shift'' = Some (Tuple [0, 0, 0]) \<and>
                 t ''shift_1'' = None \<and> t ''shift_2'' = None)"
proof -
  note f = init_fields[OF init]
  note d = sset_draws[OF unit]
  define angle where "angle = fst (uniform (- rotation_max a) (rotation_max a) g)"
  define sg where "sg = (case override of
                  None \<Rightarrow> uniform (scale_min a) (scale_max a)
                            (snd (uniform (- rotation_max a) (rotation_max a) g))
                | Some s \<Rightarrow> (s, snd (uniform (- rotation_max a) (rotation_max a) g)))"
  define smh where "smh = shift_max a (i_h a) (fst sg)"
  define smw where "smw = shift_max a (i_w a) (fst sg)"
  have t: "t = (if 0 < smh \<and> 0 < smw
              then [''rotate'' \<mapsto> Float angle, ''scale'' \<mapsto> Float (fst sg),
                    ''shift_1'' \<mapsto> Float (fst (uniform (- smh) smh (snd sg))),
                    ''shift_2'' \<mapsto> Float (fst (uniform (- smw) smw (stl (snd sg))))]
              else [''rotate'' \<mapsto> Float angle, ''scale'' \<mapsto> Float (fst sg),
                    ''shift'' \<mapsto> Tuple [0, 0, 0]])"
    using random_transformation_record[OF run]
    unfolding angle_def sg_def smh_def smw_def by blast
  have angle: "- rotation_max a \<le> angle" "angle \<le> rotation_max a"
    using uniform_between[of "- rotation_max a" "rotation_max a" g] f(6) d(1,2)
    by (simp_all add: angle_def)
  have scale: "case override of Some s \<Rightarrow> fst sg = s
               | None \<Rightarrow> scale_min a \<le> fst sg \<and> fst sg \<le> scale_max a"
    using uniform_between[of "scale_min a" "scale_max a" "stl g"] f(9) d(3,4)
    by (simp add: sg_def split: option.splits)
  have dg: "0 \<le> shd (snd sg)" "shd (snd sg) < 1" "0 \<le> shd (stl (snd sg))" "shd (stl (snd sg)) < 1"
    using d by (simp_all add: sg_def split: option.splits)
  show ?thesis
  proof (rule exI[of _ angle], rule exI[of _ "fst sg"], intro conjI angle scale)
    show "t ''rotate'' = Some (Float angle)" by (simp add: t)
    show "t ''scale'' = Some (Float (fst sg))" by (simp add: t)
    show "if 0 < shift_max a (i_h a) (fst sg) \<and> 0 < shift_max a (i_w a) (fst sg)
          then \<exists>shift_h shift_w.
                 t ''shift_1'' = Some (Float shift_h) \<and> t ''shift_2'' = Some (Float shift_w) \<and>
                 \<bar>shift_h\<bar> \<le> shift_max a (i_h a) (fst sg) \<and>
                 \<bar>shift_w\<bar> \<le> shift_max a (i_w a) (fst sg)
          else t ''shift'' = Some (Tuple [0, 0, 0]) \<and>
               t ''shift_1'' = None \<and> t ''shift_2'' = None"
    proof (cases "0 < smh \<and> 0 < smw")
      case True
      then have pos: "0 \<le> smh" "0 \<le> smw" by simp_all
      have "\<bar>fst (uniform (- smh) smh (snd sg))\<bar> \<le> smh"
        by (rule uniform_symmetric[OF pos(1) dg(1,2)])
      moreover have "\<bar>fst (uniform (- smw) smw (stl (snd sg)))\<bar> \<le> smw"
        by (rule uniform_symmetric[OF pos(2) dg(3,4)])
      ultimately show ?thesis
        using True unfolding smh_def[symmetric] smw_def[symmetric] by (simp add: t)
    next
      case False
      then show ?thesis
        unfolding smh_def[symmetric] smw_def[symmetric] by (auto simp: t)
    qed
  qed
qed

section \<open>Adversarial patch: scaling\<close>

lemma py_round_cases: "py_round x = \<lfloor>x\<rfloor> \<or> py_round x = \<lfloor>x\<rfloor> + 1"
  by (simp add: py_round_def)

lemma py_round_of_int [simp]: "py_round (of_int n) = n"
  by (simp add: py_round_def)

lemma py_round_of_nat [simp]: "py_round (real n) = int n"
  using py_round_of_int[of "int n"] by simp

lemma py_round_nonneg: "0 \<le> x \<Longrightarrow> 0 \<le> py_round x"
proof -
  assume "0 \<le> x"
  then have "0 \<le> \<lfloor>x\<rfloor>" by simp
  with py_round_cases[of x] show ?thesis by auto
qed

lemma py_round_le_int:
  assumes "x \<le> of_int n"
  shows "py_round x \<le> n"
proof (cases "\<lfloor>x\<rfloor> < n")
  case True
  with py_round_cases[of x] show ?thesis by auto
next
  case False
  moreover from assms have "\<lfloor>x\<rfloor> \<le> n" by (simp add: floor_le_iff)
  ultimately have "\<lfloor>x\<rfloor> = n" by simp
  with assms have "x = of_int n"
    by (metis of_int_floor_le order_antisym)
  then show ?thesis by simp
qed

lemma slice_bound_inside: "0 \<le> v \<Longrightarrow> v \<le> int n \<Longrightarrow> slice_bound n v = nat v"
  by (simp add: slice_bound_def)

lemma slice_window1_inside:
  "0 \<le> lo \<Longrightarrow> lo \<le> hi \<Longrightarrow> hi \<le> int n \<Longrightarrow>
   slice_window1 n (Some (lo, hi)) = (nat lo, nat (hi - lo))"
  by (simp add: slice_window1_def slice_bound_inside nat_diff_distrib)

lemma centre_offsets:
  fixes n :: nat and m :: int
  assumes "0 \<le> m" "m \<le> int n"
  shows "0 \<le> (int n - m) div 2" and "(int n - m) div 2 + m \<le> int n"
  using assms by auto

lemma broadcastable_to_refl: "broadcastable_to s s"
  by (simp add: broadcastable_to_def list_all2_same)

lemma zoom_shape3:
  "zoom_shape [h, w, c] [s, s, 1] = [nat (py_round (real h * s)), nat (py_round (real w * s)), c]"
  by (simp add: zoom_shape_def)

lemma bcast_index_inside:
  "length idx = length s \<Longrightarrow> \<forall>k<length s. idx ! k < s ! k \<Longrightarrow> bcast_index s idx = idx"
  unfolding bcast_index_def
  by (rule nth_equalityI) auto

lemma length_slice_window [simp]: "length (slice_window s sls) = length s"
  by (induction s sls rule: slice_window.induct) simp_all

lemma slice_window1_None [simp]: "slice_window1 n None = (0, n)"
  by (simp add: slice_window1_def)

lemma setitem_fits:
  assumes "length sls \<le> length (shape x)"
    and "shape v = map snd (slice_window (shape x) sls)"
  shows "setitem x sls v =
         Inr \<lparr>shape = shape x,
              elem = (\<lambda>idx. if in_window (slice_window (shape x) sls) idx
                             then elem v (bcast_index (shape v)
                                    (map2 (\<lambda>i lo. i - lo) idx
                                       (map fst (slice_window (shape x) sls))))
                             else elem x idx)\<rparr>"
proof -
  from assms(2) have "length (shape v) = length (slice_window (shape x) sls)"
    by (metis length_map)
  with assms show ?thesis
    by (simp add: setitem_def Let_def broadcastable_to_refl cong: if_cong)
qed

lemma setitem_window:
  assumes "length sls \<le> length (shape x)" and "slice_window (shape x) sls = w"
    and "shape v = map snd w"
  shows "setitem x sls v =
         Inr \<lparr>shape = shape x,
              elem = (\<lambda>idx. if in_window w idx
                             then elem v (bcast_index (shape v)
                                    (map2 (\<lambda>i lo. i - lo) idx (map fst w)))
                             else elem x idx)\<rparr>"
proof -
  from assms(3) have "shape v = map snd (slice_window (shape x) sls)"
    by (simp add: assms(2))
  from setitem_fits[OF assms(1) this] show ?thesis
    unfolding assms(2) .
qed

lemma getitem_fits:
  assumes "length sls \<le> length (shape x)"
  shows "getitem x sls =
         Inr \<lparr>shape = map snd (slice_window (shape x) sls),
              elem = (\<lambda>idx. elem x (map2 (+) (map fst (slice_window (shape x) sls)) idx))\<rparr>"
  using assms by (simp add: getitem_def Let_def)

lemma scaled_extent_le:
  assumes "0 \<le> s" "s \<le> 1"
  shows "scaled_extent n s \<le> n"
proof -
  have "real n * s \<le> real n * 1" using assms by (intro mult_left_mono) simp_all
  then have "real n * s \<le> of_int (int n)" by simp
  from py_round_le_int[OF this] show ?thesis by (simp add: scaled_extent_def)
qed

lemma scaled_extent_int:
  assumes "0 \<le> s"
  shows "py_round (real n * s) = int (scaled_extent n s)"
  using py_round_nonneg[of "real n * s"] assms by (simp add: scaled_extent_def)

lemma centre_window:
  assumes "m \<le> n"
  shows "slice_window1 n (Some ((int n - int m) div 2, (int n - int m) div 2 + int m)) =
         (centre_offset n m, m)"
proof -
  have a: "(int n - int m) div 2 = int (centre_offset n m)"
    using assms by (simp add: centre_offset_def of_nat_diff zdiv_int)
  have b: "centre_offset n m + m \<le> n"
    using assms by (simp add: centre_offset_def)
  show ?thesis
    unfolding a using b
    by (subst slice_window1_inside) (simp_all add: nat_add_distrib)
qed

text \<open>The two stand-alone layouts of the facts every lemma on the attack starts from.\<close>

lemma channels_last_fields:
  assumes init: "AdversarialPatchNumpy_init c tgt rot smin smax lr iters bs = Inr a"
    and cl: "\<not> channels_first c" and s: "input_shape c = [H, W, C]"
  shows "patch_shape a = [H, W, C]" "image_shape a = [H, W, C]" "i_h a = 0" "i_w a = 1"
    "channels_first (estimator a) = False" "input_shape (estimator a) = [H, W, C]"
    "shape (patch a) = [H, W, C]"
  using init_fields[OF init] cl s by simp_all

lemma scale_np_shrink:
  assumes init: "AdversarialPatchNumpy_init c tgt rot smin smax lr iters bs = Inr a"
    and cl: "\<not> channels_first c" and s: "input_shape c = [H, W, C]"
    and nd: "ndimage_shapes nd" and x: "shape x = [H, W, C]"
    and sc: "0 \<le> scale" "scale < 1"
  shows "\<exists>y. scale_np nd a x scale = Inr y \<and> shape y = [H, W, C] \<and>
           (\<forall>i<H. \<forall>j<W. \<forall>k<C.
              elem y [i, j, k] =
                (if centre_offset H (scaled_extent H scale) \<le> i \<and>
                    i < centre_offset H (scaled_extent H scale) + scaled_extent H scale \<and>
                    centre_offset W (scaled_extent W scale) \<le> j \<and>
                    j < centre_offset W (scaled_extent W scale) + scaled_extent W scale
                 then elem (nd_zoom nd x [scale, scale, 1])
                        [i - centre_offset H (scaled_extent H scale),
                         j - centre_offset W (scaled_extent W scale), k]
                 else 0))"
proof -
  note f = channels_last_fields[OF init cl s]
  define sh where "sh = scaled_extent H scale"
  define sw where "sw = scaled_extent W scale"
  define z where "z = nd_zoom nd x [scale, scale, 1]"
  have le: "sh \<le> H" "sw \<le> W"
    using sc by (simp_all add: sh_def sw_def scaled_extent_le)
  have r: "py_round (real H * scale) = int sh" "py_round (real W * scale) = int sw"
    using sc by (simp_all add: sh_def sw_def scaled_extent_int)
  have zs: "shape z = [sh, sw, C]"
    using nd by (simp add: z_def ndimage_shapes_def x zoom_shape3 sh_def sw_def scaled_extent_def)
  have cz: "call_zoom nd x [scale, scale, 1] = Inr z"
    by (simp add: call_zoom_def x z_def)
  have w2: "slice_window [H, W, C]
              [Some ((int H - int sh) div 2, (int H - int sh) div 2 + int sh),
               Some ((int W - int sw) div 2, (int W - int sw) div 2 + int sw)] =
            [(centre_offset H sh, sh), (centre_offset W sw, sw), (0, C)]"
    by (simp add: centre_window[OF le(1)] centre_window[OF le(2)])
  have w3: "slice_window [H, W, C]
              [Some ((int H - int sh) div 2, (int H - int sh) div 2 + int sh),
               Some ((int W - int sw) div 2, (int W - int sw) div 2 + int sw), None] =
            [(centre_offset H sh, sh), (centre_offset W sw, sw), (0, C)]"
    by (simp add: centre_window[OF le(1)] centre_window[OF le(2)])
  define x1 where "x1 = \<lparr>shape = [H, W, C],
      elem = (\<lambda>idx. if in_window [(centre_offset H sh, sh), (centre_offset W sw, sw), (0, C)] idx
                     then elem z (bcast_index [sh, sw, C]
                            (map2 (\<lambda>i lo. i - lo) idx [centre_offset H sh, centre_offset W sw, 0]))
                     else elem (zeros_like x) idx)\<rparr>"
  define y where "y = \<lparr>shape = [H, W, C],
      elem = (\<lambda>idx. if in_window [(centre_offset H sh, sh), (centre_offset W sw, sw), (0, C)] idx
                     then elem z (bcast_index [sh, sw, C]
                            (map2 (\<lambda>i lo. i - lo) idx [centre_offset H sh, centre_offset W sw, 0]))
                     else elem x1 idx)\<rparr>"
  have zx: "shape (zeros_like x) = [H, W, C]"
    by (simp add: zeros_like_def full_def x)
  have zm: "shape z = map snd [(centre_offset H sh, sh), (centre_offset W sw, sw), (0, C)]"
    by (simp add: zs)
  have s1: "setitem (zeros_like x)
              [Some ((int H - int sh) div 2, (int H - int sh) div 2 + int sh),
               Some ((int W - int sw) div 2, (int W - int sw) div 2 + int sw)] z = Inr x1"
    unfolding x1_def zx[symmetric] zs[symmetric]
    by (rule setitem_window[OF _ _ zm, unfolded list.map fst_conv]) (simp_all add: zx centre_window[OF le(1)] centre_window[OF le(2)])
  have x1s: "shape x1 = [H, W, C]" by (simp add: x1_def)
  have s2: "setitem x1
              [Some ((int H - int sh) div 2, (int H - int sh) div 2 + int sh),
               Some ((int W - int sw) div 2, (int W - int sw) div 2 + int sw), None] z = Inr y"
    unfolding y_def x1s[symmetric] zs[symmetric]
    by (rule setitem_window[OF _ _ zm, unfolded list.map fst_conv]) (simp_all add: x1s centre_window[OF le(1)] centre_window[OF le(2)])
  have run: "scale_np nd a x scale = Inr y"
    using sc(2) unpack2_patch_shape(2)[of "[H, W, C]"]
    by (simp add: scale_np_def Let_def f r cz s1 s2)
  have el: "elem y [i, j, k] =
      (if centre_offset H sh \<le> i \<and> i < centre_offset H sh + sh \<and>
          centre_offset W sw \<le> j \<and> j < centre_offset W sw + sw
       then elem z [i - centre_offset H sh, j - centre_offset W sw, k] else 0)"
    if "i < H" "j < W" "k < C" for i j k
  proof (cases "centre_offset H sh \<le> i \<and> i < centre_offset H sh + sh \<and>
          centre_offset W sw \<le> j \<and> j < centre_offset W sw + sw")
    case True
    have "bcast_index [sh, sw, C] [i - centre_offset H sh, j - centre_offset W sw, k] =
          [i - centre_offset H sh, j - centre_offset W sw, k]"
      using True that by (intro bcast_index_inside) (auto simp: nth_Cons split: nat.splits)
    with True that show ?thesis
      by (simp add: y_def in_window_def)
  next
    case False
    with that show ?thesis
      by (auto simp: y_def x1_def in_window_def zeros_like_def full_def)
  qed
  show ?thesis
    using run el unfolding sh_def sw_def z_def
    by (intro exI[of _ y]) (simp add: y_def)
qed

lemma getitem_window:
  assumes "length sls \<le> length (shape x)" and "slice_window (shape x) sls = w"
  shows "getitem x sls =
         Inr \<lparr>shape = map snd w, elem = (\<lambda>idx. elem x (map2 (+) (map fst w) idx))\<rparr>"
  using getitem_fits[OF assms(1)] unfolding assms(2) .

lemma scale_np_grow:
  assumes init: "AdversarialPatchNumpy_init c tgt rot smin smax lr iters bs = Inr a"
    and cl: "\<not> channels_first c" and s: "input_shape c = [H, W, C]"
    and nd: "ndimage_shapes nd" and x: "shape x = [H, W, C]"
    and sc: "1 < scale"
    and big: "H \<le> scaled_extent (scaled_extent H (1 / scale)) scale"
      "W \<le> scaled_extent (scaled_extent W (1 / scale)) scale"
  shows "\<exists>y crop. scale_np nd a x scale = Inr y \<and> shape y = [H, W, C] \<and>
           shape crop = [scaled_extent H (1 / scale), scaled_extent W (1 / scale), C] \<and>
           (\<forall>i<scaled_extent H (1 / scale). \<forall>j<scaled_extent W (1 / scale). \<forall>k<C.
              elem crop [i, j, k] =
                elem x [centre_offset H (scaled_extent H (1 / scale)) + i,
                        centre_offset W (scaled_extent W (1 / scale)) + j, k]) \<and>
           (\<forall>i<H. \<forall>j<W. \<forall>k<C.
              elem y [i, j, k] =
                elem (nd_zoom nd crop [scale, scale, 1])
                  [centre_offset (scaled_extent (scaled_extent H (1 / scale)) scale) H + i,
                   centre_offset (scaled_extent (scaled_extent W (1 / scale)) scale) W + j, k])"
proof -
  note f = channels_last_fields[OF init cl s]
  define sh where "sh = scaled_extent H (1 / scale)"
  define sw where "sw = scaled_extent W (1 / scale)"
  define oh where "oh = scaled_extent sh scale"
  define ow where "ow = scaled_extent sw scale"
  have inv: "0 \<le> 1 / scale" "1 / scale \<le> 1" using sc by simp_all
  have le: "sh \<le> H" "sw \<le> W"
    using inv by (simp_all add: sh_def sw_def scaled_extent_le)
  have r: "py_round (real H / scale) = int sh" "py_round (real W / scale) = int sw"
    using scaled_extent_int[OF inv(1), of H] scaled_extent_int[OF inv(1), of W]
    by (simp_all add: sh_def sw_def)
  have big': "H \<le> oh" "W \<le> ow" using big by (simp_all add: oh_def ow_def sh_def sw_def)
  define crop where "crop = \<lparr>shape = map snd [(centre_offset H sh, sh), (centre_offset W sw, sw), (0, C)],
      elem = (\<lambda>idx. elem x (map2 (+) (map fst [(centre_offset H sh, sh), (centre_offset W sw, sw), (0, C)]) idx))\<rparr>"
  have g1: "getitem x
              [Some ((int H - int sh) div 2, (int H - int sh) div 2 + int sh),
               Some ((int W - int sw) div 2, (int W - int sw) div 2 + int sw)] = Inr crop"
    unfolding crop_def
    by (rule getitem_window) (simp_all add: x centre_window[OF le(1)] centre_window[OF le(2)])
  have cs: "shape crop = [sh, sw, C]" by (simp add: crop_def)
  define z where "z = nd_zoom nd crop [scale, scale, 1]"
  have zs: "shape z = [oh, ow, C]"
    using nd by (simp add: z_def ndimage_shapes_def cs zoom_shape3 oh_def ow_def scaled_extent_def)
  have cz: "call_zoom nd crop [scale, scale, 1] = Inr z"
    by (simp add: call_zoom_def cs z_def)
  have ix: "py_index (shape z) (int 0) = Inr oh" "py_index (shape z) (int 1) = Inr ow"
    by (simp_all add: zs py_index_def)
  define y where "y = \<lparr>shape = map snd [(centre_offset oh H, H), (centre_offset ow W, W), (0, C)],
      elem = (\<lambda>idx. elem z (map2 (+) (map fst [(centre_offset oh H, H), (centre_offset ow W, W), (0, C)]) idx))\<rparr>"
  have g2: "getitem z
              [Some ((int oh - int H) div 2, (int oh - int H) div 2 + int H),
               Some ((int ow - int W) div 2, (int ow - int W) div 2 + int W), None] = Inr y"
    unfolding y_def
    by (rule getitem_window) (simp_all add: zs centre_window[OF big'(1)] centre_window[OF big'(2)])
  have run: "scale_np nd a x scale = Inr y"
    using sc unpack2_patch_shape(2)[of "[H, W, C]"] ix
    by (simp add: scale_np_def Let_def f r g1 cz g2)
  show ?thesis
    using run cs unfolding sh_def[symmetric] sw_def[symmetric] oh_def[symmetric] ow_def[symmetric]
    by (intro exI[of _ y] exI[of _ crop]) (simp add: y_def crop_def z_def)
qed

text \<open>
  Claim C3, as the code has it.  Take an attack the constructor returns on channels-last
  images of shape \<open>H x W x C\<close>, an interpolation library with scipy's shapes, a tensor
  of the patch shape and a positive factor.  A factor below 1 gives a tensor of the same
  shape whose centred block of \<open>round(H * factor) x round(W * factor)\<close> cells holds the
  zoomed content and whose other cells are 0; the block is not floored, so it is empty
  when the rounding gives 0.  The factor 1 returns the input.  A factor above 1 zooms the
  centred crop of \<open>round(H / factor) x round(W / factor)\<close> cells and cuts the result,
  centred, to the original shape, provided the zoomed crop is at least as large as the
  patch in both directions.
\<close>

theorem scale_np_channels_last:
  assumes init: "AdversarialPatchNumpy_init c tgt rot smin smax lr iters bs = Inr a"
    and cl: "\<not> channels_first c" and s: "input_shape c = [H, W, C]"
    and nd: "ndimage_shapes nd" and x: "shape x = [H, W, C]"
    and pos: "0 < scale"
  shows "(scale < 1 \<longrightarrow>
           (\<exists>y. scale_np nd a x scale = Inr y \<and> shape y = shape x \<and>
              (\<forall>i<H. \<forall>j<W. \<forall>k<C.
                 elem y [i, j, k] =
                   (if centre_offset H (scaled_extent H scale) \<le> i \<and>
                       i < centre_offset H (scaled_extent H scale) + scaled_extent H scale \<and>
                       centre_offset W (scaled_extent W scale) \<le> j \<and>
                       j < centre_offset W (scaled_extent W scale) + scaled_extent W scale
                    then elem (nd_zoom nd x [scale, scale, 1])
                           [i - centre_offset H (scaled_extent H scale),
                            j - centre_offset W (scaled_extent W scale), k]
                    else 0)))) \<and>
         (scale = 1 \<longrightarrow> scale_np nd a x scale = Inr x) \<and>
         (1 < scale \<and>
          H \<le> scaled_extent (scaled_extent H (1 / scale)) scale \<and>
          W \<le> scaled_extent (scaled_extent W (1 / scale)) scale \<longrightarrow>
           (\<exists>y crop. scale_np nd a x scale = Inr y \<and> shape y = shape x \<and>
              shape crop = [scaled_extent H (1 / scale), scaled_extent W (1 / scale), C] \<and>
              (\<forall>i<scaled_extent H (1 / scale). \<forall>j<scaled_extent W (1 / scale). \<forall>k<C.
                 elem crop [i, j, k] =
                   elem x [centre_offset H (scaled_extent H (1 / scale)) + i,
                           centre_offset W (scaled_extent W (1 / scale)) + j, k]) \<and>
              (\<forall>i<H. \<forall>j<W. \<forall>k<C.
                 elem y [i, j, k] =
                   elem (nd_zoom nd crop [scale, scale, 1])
                     [centre_offset (scaled_extent (scaled_extent H (1 / scale)) scale) H + i,
                      centre_offset (scaled_extent (scaled_extent W (1 / scale)) scale) W + j, k])))"
proof (intro conjI impI)
  assume "scale < 1"
  with scale_np_shrink[OF init cl s nd x, of scale] pos
  show "\<exists>y. scale_np nd a x scale = Inr y \<and> shape y = shape x \<and>
              (\<forall>i<H. \<forall>j<W. \<forall>k<C.
                 elem y [i, j, k] =
                   (if centre_offset H (scaled_extent H scale) \<le> i \<and>
                       i < centre_offset H (scaled_extent H scale) + scaled_extent H scale \<and>
                       centre_offset W (scaled_extent W scale) \<le> j \<and>
                       j < centre_offset W (scaled_extent W scale) + scaled_extent W scale
                    then elem (nd_zoom nd x [scale, scale, 1])
                           [i - centre_offset H (scaled_extent H scale),
                            j - centre_offset W (scaled_extent W scale), k]
                    else 0))"
    unfolding x by simp
next
  assume "scale = 1"
  then show "scale_np nd a x scale = Inr x"
    using scale_np_one[OF init] by simp
next
  assume g: "1 < scale \<and>
          H \<le> scaled_extent (scaled_extent H (1 / scale)) scale \<and>
          W \<le> scaled_extent (scaled_extent W (1 / scale)) scale"
  then have "1 < scale" and "H \<le> scaled_extent (scaled_extent H (1 / scale)) scale"
    and "W \<le> scaled_extent (scaled_extent W (1 / scale)) scale" by simp_all
  from scale_np_grow[OF init cl s nd x this]
  show "\<exists>y crop. scale_np nd a x scale = Inr y \<and> shape y = shape x \<and>
              shape crop = [scaled_extent H (1 / scale), scaled_extent W (1 / scale), C] \<and>
              (\<forall>i<scaled_extent H (1 / scale). \<forall>j<scaled_extent W (1 / scale). \<forall>k<C.
                 elem crop [i, j, k] =
                   elem x [centre_offset H (scaled_extent H (1 / scale)) + i,
                           centre_offset W (scaled_extent W (1 / scale)) + j, k]) \<and>
              (\<forall>i<H. \<forall>j<W. \<forall>k<C.
                 elem y [i, j, k] =
                   elem (nd_zoom nd crop [scale, scale, 1])
                     [centre_offset (scaled_extent (scaled_extent H (1 / scale)) scale) H + i,
                      centre_offset (scaled_extent (scaled_extent W (1 / scale)) scale) W + j, k])"
    unfolding x by simp
qed

text \<open>
  Witness for C3: on 4 x 4 x 1 images the factors 1/2 and 2 keep the shape and the
  factor 1 returns the patch.
\<close>

theorem scale_np_channels_last_witness:
  "and_then (default_attack [4, 4, 1] 16)
     (\<lambda>a. map_sum id shape (scale_np nearest_ndimage a (patch a) (1 / 2))) = Inr [4, 4, 1] \<and>
   and_then (default_attack [4, 4, 1] 16)
     (\<lambda>a. scale_np nearest_ndimage a (patch a) 1) = map_sum id patch (default_attack [4, 4, 1] 16) \<and>
   and_then (default_attack [4, 4, 1] 16)
     (\<lambda>a. map_sum id shape (scale_np nearest_ndimage a (patch a) 2)) = Inr [4, 4, 1]"
proof -
  obtain a where da: "default_attack [4, 4, 1] 16 = Inr a"
    by (simp add: default_attack_init)
  then have init: "AdversarialPatchNumpy_init (identity_classifier [4, 4, 1] False (0, 1)) 0
      (45 / 2) (1 / 10) 1 5 500 16 = Inr a"
    by (simp add: default_attack_def)
  have cl: "\<not> channels_first (identity_classifier [4, 4, 1] False (0, 1))"
    and s: "input_shape (identity_classifier [4, 4, 1] False (0, 1)) = [4, 4, 1]"
    by (simp_all add: identity_classifier_def)
  have x: "shape (patch a) = [4, 4, 1]"
    using init_fields(15)[OF init] s by simp
  note T = scale_np_channels_last[OF init cl s nearest_ndimage_shapes x]
  have big: "(4::nat) \<le> scaled_extent (scaled_extent 4 (1 / 2)) 2"
    by (simp add: scaled_extent_def py_round_def)
  from T[of "1 / 2"] obtain y1 where
    y1: "scale_np nearest_ndimage a (patch a) (1 / 2) = Inr y1" "shape y1 = shape (patch a)"
    by auto
  from T[of 1] have y2: "scale_np nearest_ndimage a (patch a) 1 = Inr (patch a)" by simp
  from T[of 2] big obtain y3 where
    y3: "scale_np nearest_ndimage a (patch a) 2 = Inr y3" "shape y3 = shape (patch a)"
    by auto
  show ?thesis
    unfolding da using y1 y2 y3 x by simp
qed

text \<open>
  Counterexample to C3 as stated.  On 10 x 10 x 1 images the factor 2.3 crops 4 x 4
  cells, zooms them to 9 x 9, and the cut with the negative offset \<open>-1\<close> leaves a
  1 x 1 x 1 tensor: the shape is not preserved.  On 4 x 4 x 1 images the factor 0.1
  rounds the block to 0 x 0 cells, nothing is floored to one pixel, and the result of
  scaling the constant patch 1/2 is all zeros.
\<close>

theorem scale_np_shape_counterexample:
  "and_then (default_attack [10, 10, 1] 16)
     (\<lambda>a. map_sum id shape (scale_np nearest_ndimage a (patch a) (23 / 10))) = Inr [1, 1, 1] \<and>
   and_then (default_attack [4, 4, 1] 16)
     (\<lambda>a. map_sum id to_list (scale_np nearest_ndimage a (patch a) (1 / 10))) =
     Inr [0, 0, 0, 0, 0, 0, 0, 0, 0, 0, 0, 0, 0, 0, 0, 0]"
proof (rule conjI)
  show "and_then (default_attack [10, 10, 1] 16)
     (\<lambda>a. map_sum id shape (scale_np nearest_ndimage a (patch a) (23 / 10))) = Inr [1, 1, 1]"
    apply (simp add: default_attack_init)
    apply (simp add: scale_np_def unpack2_def Let_def py_round_def identity_classifier_def)
    apply (simp add: getitem_def amap_def full_def slice_window1_def slice_bound_def)
    apply (simp add: call_zoom_def nearest_ndimage_def zoom_shape_def py_round_def)
    apply (simp add: py_index_def)
    apply (simp add: getitem_def slice_window1_def slice_bound_def)
    done
  show "and_then (default_attack [4, 4, 1] 16)
     (\<lambda>a. map_sum id to_list (scale_np nearest_ndimage a (patch a) (1 / 10))) =
     Inr [0, 0, 0, 0, 0, 0, 0, 0, 0, 0, 0, 0, 0, 0, 0, 0]"
    apply (simp add: default_attack_init)
    apply (simp add: scale_np_def unpack2_def Let_def py_round_def identity_classifier_def)
    apply (simp add: call_zoom_def nearest_ndimage_def zoom_shape_def py_round_def amap_def full_def
        zeros_like_def)
    apply (simp add: setitem_def slice_window1_def slice_bound_def broadcastable_to_def Let_def)
    apply (simp add: to_list_def in_window_def upt_conv_Cons)
    done
qed

section \<open>Adversarial patch: the circular mask\<close>

lemma broadcast_grid: "broadcast_shapes [Suc 0, d] [d, Suc 0] = Some [d, d]"
  by (simp add: broadcast_shapes_def)

lemma py_int_half:
  assumes "d \<le> n"
  shows "py_int ((real n - real d) / 2) = int ((n - d) div 2)"
proof -
  have "(real n - real d) / 2 = real (n - d) / real 2"
    using assms by (simp add: of_nat_diff)
  moreover have "\<lfloor>real (n - d) / real 2\<rfloor> = int ((n - d) div 2)"
    by (rule floor_divide_of_nat_eq)
  moreover have "0 \<le> real (n - d) / real 2" by simp
  ultimately show ?thesis by (simp add: py_int_def)
qed

text \<open>The grid value at position \<open>k\<close> of \<open>np.linspace(-1, 1, d)\<close>.\<close>

lemma linspace_elem:
  "elem (linspace (- 1) 1 d) [k] = (if d = 1 then - 1 else - 1 + real k * (2 / real (d - 1)))"
  by (simp add: linspace_def)

lemma shape_linspace [simp]: "shape (linspace lo hi n) = [n]"
  by (simp add: linspace_def)

lemma linspace_mirror:
  assumes "k < d"
  shows "(elem (linspace (- 1) 1 d) [d - 1 - k])\<^sup>2 = (elem (linspace (- 1) 1 d) [k])\<^sup>2"
proof (cases "d = 1")
  case True
  then show ?thesis by (simp add: linspace_elem)
next
  case False
  with assms have d: "2 \<le> d" by simp
  then have nz: "real (d - 1) \<noteq> 0" by simp
  have "real (d - 1 - k) = real (d - 1) - real k"
    using assms by (simp add: of_nat_diff)
  then have "- 1 + real (d - 1 - k) * (2 / real (d - 1)) =
             - (- 1 + real k * (2 / real (d - 1)))"
    using nz by (simp add: field_simps)
  then have "elem (linspace (- 1) 1 d) [d - 1 - k] = - elem (linspace (- 1) 1 d) [k]"
    using False by (simp add: linspace_elem)
  then show ?thesis by simp
qed

text \<open>The mask before padding, as lines 226-231 compute it.\<close>

lemma clip_unit: "0 \<le> v \<Longrightarrow> 0 \<le> 1 - clip (- 1) 1 v \<and> 1 - clip (- 1) 1 v \<le> 1"
  by (simp add: clip_def min_def max_def)

lemma mask_channels_last:
  assumes init: "AdversarialPatchNumpy_init c tgt rot smin smax lr iters bs = Inr a"
    and cl: "\<not> channels_first c" and s: "input_shape c = [H, W, C]"
  shows "\<exists>m. get_circular_patch_mask a sharpness = Inr m \<and> shape m = [H, W, C] \<and>
           (\<forall>idx. 0 \<le> elem m idx \<and> elem m idx \<le> 1) \<and>
           (\<forall>i<H. \<forall>j<W. \<forall>k<C.
              elem m [i, j, k] =
                (if centre_offset H (min H W) \<le> i \<and> i < centre_offset H (min H W) + min H W \<and>
                    centre_offset W (min H W) \<le> j \<and> j < centre_offset W (min H W) + min H W
                 then 1 - clip (- 1) 1
                        (((elem (linspace (- 1) 1 (min H W)) [j - centre_offset W (min H W)])\<^sup>2 +
                          (elem (linspace (- 1) 1 (min H W)) [i - centre_offset H (min H W)])\<^sup>2)
                         ^ sharpness)
                 else 0))"
proof -
  note f = channels_last_fields[OF init cl s]
  define d where "d = min H W"
  define hb where "hb = centre_offset H d"
  define wb where "wb = centre_offset W d"
  have dle: "d \<le> H" "d \<le> W" by (simp_all add: d_def)
  define xg where "xg = amap (\<lambda>v. v\<^sup>2) (fst (meshgrid_sparse (linspace (- 1) 1 d) (linspace (- 1) 1 d)))"
  define yg where "yg = amap (\<lambda>v. v\<^sup>2) (snd (meshgrid_sparse (linspace (- 1) 1 d) (linspace (- 1) 1 d)))"
  have xs: "shape xg = [1, d]" and ys: "shape yg = [d, 1]"
    by (simp_all add: xg_def yg_def meshgrid_sparse_def amap_def linspace_def)
  define S where "S = \<lparr>shape = [d, d],
      elem = (\<lambda>idx. elem xg (bcast_index (shape xg) idx) + elem yg (bcast_index (shape yg) idx))\<rparr>"
  have b: "binop (+) xg yg = Inr S"
    by (simp add: binop_def xs ys broadcast_grid S_def)
  define M0 where "M0 = amap (\<lambda>v. 1 - clip (- 1) 1 v) (amap (\<lambda>v. v ^ sharpness) S)"
  have m0s: "shape M0 = [d, d]" by (simp add: M0_def amap_def S_def)
  have pads: "py_int ((real H - real d) / 2) = int hb" "py_int ((real W - real d) / 2) = int wb"
    using dle by (simp_all add: py_int_half hb_def wb_def centre_offset_def)
  have fit: "hb + d \<le> H" "wb + d \<le> W"
    using dle by (simp_all add: hb_def wb_def centre_offset_def)
  define M1 where "M1 = \<lparr>shape = [H, W],
      elem = (\<lambda>idx. case idx of
                 [i, j] \<Rightarrow> if hb \<le> i \<and> i < hb + d \<and> wb \<le> j \<and> j < wb + d
                           then elem M0 [i - hb, j - wb] else 0
               | _ \<Rightarrow> 0)\<rparr>"
  have p: "pad2 M0 (int hb, int H - int hb - int d) (int wb, int W - int wb - int d) = Inr M1"
    using fit by (simp add: pad2_def m0s M1_def nat_diff_distrib cong: if_cong list.case_cong)
  define M2 where "M2 = \<lparr>shape = [H, W, 1], elem = (\<lambda>idx. elem M1 (take 2 idx @ drop 3 idx))\<rparr>"
  have e: "expand_dims M1 2 = Inr M2"
    by (simp add: expand_dims_def M1_def M2_def numeral_3_eq_3 numeral_2_eq_2)
  define M3 where "M3 = \<lparr>shape = [H, W, C], elem = (\<lambda>idx. elem M2 (bcast_index [H, W, 1] idx))\<rparr>"
  have bt: "broadcast_to M2 [H, W, C] = Inr M3"
    by (simp add: broadcast_to_def M2_def M3_def broadcastable_to_def)
  have run: "get_circular_patch_mask a sharpness = Inr M3"
    unfolding get_circular_patch_mask_def f
    by (simp add: py_index_def Let_def case_prod_beta d_def[symmetric] xg_def[symmetric]
        yg_def[symmetric] b M0_def[symmetric] m0s pads p e bt)
  have Snn: "0 \<le> elem S idx" for idx
    by (simp add: S_def xg_def yg_def amap_def)
  have M0r: "0 \<le> elem M0 idx \<and> elem M0 idx \<le> 1" for idx
    using clip_unit[of "elem S idx ^ sharpness"] Snn[of idx] by (simp add: M0_def amap_def)
  have M1r: "0 \<le> elem M1 idx \<and> elem M1 idx \<le> 1" for idx
    using M0r by (simp add: M1_def split: list.splits)
  have M3r: "0 \<le> elem M3 idx \<and> elem M3 idx \<le> 1" for idx
    using M1r by (simp add: M3_def M2_def)
  have grid: "elem S [i, j] = (elem (linspace (- 1) 1 d) [j])\<^sup>2 + (elem (linspace (- 1) 1 d) [i])\<^sup>2"
    if "i < d" "j < d" for i j
    using that
    by (cases "d = 1")
      (auto simp: S_def xs ys bcast_index_def xg_def yg_def amap_def meshgrid_sparse_def)
  have el: "elem M3 [i, j, k] =
      (if hb \<le> i \<and> i < hb + d \<and> wb \<le> j \<and> j < wb + d
       then 1 - clip (- 1) 1
              (((elem (linspace (- 1) 1 d) [j - wb])\<^sup>2 + (elem (linspace (- 1) 1 d) [i - hb])\<^sup>2)
               ^ sharpness)
       else 0)" if "i < H" "j < W" "k < C" for i j k
  proof -
    have "bcast_index [H, W, 1] [i, j, k] = [i, j, 0]"
      using that by (auto simp: bcast_index_def)
    then have "elem M3 [i, j, k] = elem M1 [i, j]"
      by (simp add: M3_def M2_def numeral_3_eq_3 numeral_2_eq_2)
    also have "\<dots> = (if hb \<le> i \<and> i < hb + d \<and> wb \<le> j \<and> j < wb + d
                      then elem M0 [i - hb, j - wb] else 0)"
      by (simp add: M1_def)
    also have "\<dots> = (if hb \<le> i \<and> i < hb + d \<and> wb \<le> j \<and> j < wb + d
       then 1 - clip (- 1) 1
              (((elem (linspace (- 1) 1 d) [j - wb])\<^sup>2 + (elem (linspace (- 1) 1 d) [i - hb])\<^sup>2)
               ^ sharpness)
       else 0)"
    proof (cases "hb \<le> i \<and> i < hb + d \<and> wb \<le> j \<and> j < wb + d")
      case True
      then have "i - hb < d" "j - wb < d" by auto
      from grid[OF this] True show ?thesis by (simp add: M0_def amap_def)
    next
      case False
      then show ?thesis by auto
    qed
    finally show ?thesis .
  qed
  show ?thesis
    using run M3r el unfolding hb_def wb_def d_def
    by (intro exI[of _ M3]) (simp add: M3_def)
qed

lemma mask_channels_first:
  assumes init: "AdversarialPatchNumpy_init c tgt rot smin smax lr iters bs = Inr a"
    and cf: "channels_first c" and s: "input_shape c = [n0, n1, n2]"
  shows "get_circular_patch_mask a sharpness = Inl IndexError"
proof -
  note f = init_fields[OF init]
  define d where "d = min n1 n2"
  define xg where "xg = amap (\<lambda>v. v\<^sup>2) (fst (meshgrid_sparse (linspace (- 1) 1 d) (linspace (- 1) 1 d)))"
  define yg where "yg = amap (\<lambda>v. v\<^sup>2) (snd (meshgrid_sparse (linspace (- 1) 1 d) (linspace (- 1) 1 d)))"
  have xs: "shape xg = [1, d]" and ys: "shape yg = [d, 1]"
    by (simp_all add: xg_def yg_def meshgrid_sparse_def amap_def)
  define S where "S = \<lparr>shape = [d, d],
      elem = (\<lambda>idx. elem xg (bcast_index (shape xg) idx) + elem yg (bcast_index (shape yg) idx))\<rparr>"
  have b: "binop (+) xg yg = Inr S"
    by (simp add: binop_def xs ys broadcast_grid S_def)
  define M0 where "M0 = amap (\<lambda>v. 1 - clip (- 1) 1 v) (amap (\<lambda>v. v ^ sharpness) S)"
  have m0s: "shape M0 = [d, d]" by (simp add: M0_def amap_def S_def)
  show ?thesis
    unfolding get_circular_patch_mask_def f(2,3,4,5) s
    using cf
    by (simp add: py_index_def Let_def case_prod_beta d_def[symmetric] xg_def[symmetric]
        yg_def[symmetric] b M0_def[symmetric] m0s)
qed

lemma all_indices3:
  "idx \<in> set (all_indices [n0, n1, n2]) \<Longrightarrow> \<exists>i<n0. \<exists>j<n1. \<exists>k<n2. idx = [i, j, k]"
  by auto

lemma array_equal_3d:
  assumes "shape p = [n0, n1, n2]" and "shape q = [n0, n1, n2]"
    and "\<And>i j k. i < n0 \<Longrightarrow> j < n1 \<Longrightarrow> k < n2 \<Longrightarrow> elem p [i, j, k] = elem q [i, j, k]"
  shows "array_equal p q"
proof -
  have "map (elem p) (all_indices [n0, n1, n2]) = map (elem q) (all_indices [n0, n1, n2])"
  proof (rule map_cong[OF refl])
    fix idx assume "idx \<in> set (all_indices [n0, n1, n2])"
    then obtain i j k where "i < n0" "j < n1" "k < n2" "idx = [i, j, k]"
      using all_indices3 by blast
    with assms(3) show "elem p idx = elem q idx" by simp
  qed
  with assms(1,2) show ?thesis by (simp add: array_equal_def to_list_def)
qed

text \<open>
  Claim C8, as the code has it.  For an attack the constructor returns on images of shape
  \<open>n0 x n1 x n2\<close>, every mask the generator returns comes from a channels-last
  classifier, has the shape of the patch, has all its values in \<open>[0, 1]\<close>, is 0 in
  every cell outside the bounding square of the circular footprint, and is equal to its
  own rotation by 90 degrees whenever the image is square (\<open>n0 = n1\<close>).
\<close>

theorem circular_patch_mask_produced:
  assumes init: "AdversarialPatchNumpy_init c tgt rot smin smax lr iters bs = Inr a"
    and s: "input_shape c = [n0, n1, n2]"
    and run: "get_circular_patch_mask a sharpness = Inr m"
  shows "\<not> channels_first c \<and> shape m = [n0, n1, n2] \<and>
         list_all (\<lambda>v. 0 \<le> v \<and> v \<le> 1) (to_list m) \<and>
         (\<forall>i<n0. \<forall>j<n1. \<forall>k<n2.
            \<not> (centre_offset n0 (min n0 n1) \<le> i \<and> i < centre_offset n0 (min n0 n1) + min n0 n1 \<and>
               centre_offset n1 (min n0 n1) \<le> j \<and> j < centre_offset n1 (min n0 n1) + min n0 n1) \<longrightarrow>
            elem m [i, j, k] = 0) \<and>
         (n0 = n1 \<longrightarrow> array_equal (rot90 m) m)"
proof -
  have cl: "\<not> channels_first c"
    using mask_channels_first[OF init _ s, of sharpness] run by auto
  from mask_channels_last[OF init cl s, of sharpness] run
  have sh: "shape m = [n0, n1, n2]"
    and rg: "\<And>idx. 0 \<le> elem m idx \<and> elem m idx \<le> 1"
    and el: "\<And>i j k. i < n0 \<Longrightarrow> j < n1 \<Longrightarrow> k < n2 \<Longrightarrow>
              elem m [i, j, k] =
                (if centre_offset n0 (min n0 n1) \<le> i \<and> i < centre_offset n0 (min n0 n1) + min n0 n1 \<and>
                    centre_offset n1 (min n0 n1) \<le> j \<and> j < centre_offset n1 (min n0 n1) + min n0 n1
                 then 1 - clip (- 1) 1
                        (((elem (linspace (- 1) 1 (min n0 n1)) [j - centre_offset n1 (min n0 n1)])\<^sup>2 +
                          (elem (linspace (- 1) 1 (min n0 n1)) [i - centre_offset n0 (min n0 n1)])\<^sup>2)
                         ^ sharpness)
                 else 0)"
    by auto
  have unit: "list_all (\<lambda>v. 0 \<le> v \<and> v \<le> 1) (to_list m)"
    using rg by (simp add: to_list_def list_all_iff)
  have zero: "\<forall>i<n0. \<forall>j<n1. \<forall>k<n2.
            \<not> (centre_offset n0 (min n0 n1) \<le> i \<and> i < centre_offset n0 (min n0 n1) + min n0 n1 \<and>
               centre_offset n1 (min n0 n1) \<le> j \<and> j < centre_offset n1 (min n0 n1) + min n0 n1) \<longrightarrow>
            elem m [i, j, k] = 0"
    using el by simp
  have sym: "array_equal (rot90 m) m" if sq: "n0 = n1"
  proof (rule array_equal_3d[where ?n0.0 = n0 and ?n1.0 = n1 and ?n2.0 = n2])
    show "shape (rot90 m) = [n0, n1, n2]" using sh sq by (simp add: rot90_def)
    show "shape m = [n0, n1, n2]" by (rule sh)
    fix i j k assume b: "i < n0" "j < n1" "k < n2"
    then have b': "j < n0" "n1 - 1 - i < n1" using sq by simp_all
    have "elem (rot90 m) [i, j, k] = elem m [j, n1 - 1 - i, k]"
      using sh by (simp add: rot90_def)
    also have "\<dots> = 1 - clip (- 1) 1
                        (((elem (linspace (- 1) 1 n0) [n0 - 1 - i])\<^sup>2 +
                          (elem (linspace (- 1) 1 n0) [j])\<^sup>2) ^ sharpness)"
      using el[OF b'(1) b'(2) b(3)] b sq by (simp add: centre_offset_def)
    also have "\<dots> = 1 - clip (- 1) 1
                        (((elem (linspace (- 1) 1 n0) [j])\<^sup>2 +
                          (elem (linspace (- 1) 1 n0) [i])\<^sup>2) ^ sharpness)"
      using linspace_mirror[OF b(1)] by (simp add: add.commute)
    also have "\<dots> = elem m [i, j, k]"
      using el[OF b] b sq by (simp add: centre_offset_def)
    finally show "elem (rot90 m) [i, j, k] = elem m [i, j, k]" .
  qed
  from cl sh unit zero sym show ?thesis by blast
qed

section \<open>Adversarial patch: the sampler returns on channels-last images\<close>

lemma scale_np_unit:
  assumes init: "AdversarialPatchNumpy_init c tgt rot smin smax lr iters bs = Inr a"
    and cl: "\<not> channels_first c" and s: "input_shape c = [H, W, C]"
    and nd: "ndimage_shapes nd" and x: "shape x = [H, W, C]"
    and sc: "0 \<le> scale" "scale \<le> 1"
  shows "\<exists>y. scale_np nd a x scale = Inr y \<and> shape y = [H, W, C]"
proof (cases "scale = 1")
  case True
  with scale_np_one[OF init, of nd x] x show ?thesis by simp
next
  case False
  with sc have "scale < 1" by simp
  from scale_np_shrink[OF init cl s nd x sc(1) this] show ?thesis by blast
qed

lemma rotate_np_channels_last:
  assumes init: "AdversarialPatchNumpy_init c tgt rot smin smax lr iters bs = Inr a"
    and cl: "\<not> channels_first c" and s: "input_shape c = [H, W, C]"
    and x: "shape x = [H, W, C]"
  shows "rotate_np nd a x angle = Inr (nd_rotate nd x angle (0, 1))"
  using channels_last_fields(3,4)[OF init cl s] x
  by (simp add: rotate_np_def call_rotate_def)

lemma shift_np_channels_last:
  assumes init: "AdversarialPatchNumpy_init c tgt rot smin smax lr iters bs = Inr a"
    and cl: "\<not> channels_first c" and s: "input_shape c = [H, W, C]"
    and x: "shape x = [H, W, C]"
  shows "shift_np nd a x h w = Inr (nd_shift nd x [h, w, 0], h, w)"
  using channels_last_fields(5)[OF init cl s] x
  by (simp add: shift_np_def call_shift_def Let_def)

lemma random_transformation_returns:
  assumes init: "AdversarialPatchNumpy_init c tgt rot smin smax lr iters bs = Inr a"
    and cl: "\<not> channels_first c" and s: "input_shape c = [H, W, C]"
    and nd: "ndimage_shapes nd" and p: "shape p = [H, W, C]"
    and unit: "\<forall>u\<in>sset g. 0 \<le> u \<and> u < 1"
    and ov: "case override of None \<Rightarrow> True | Some v \<Rightarrow> 0 \<le> v \<and> v \<le> 1"
  shows "\<exists>p' m' t g'. random_transformation nd a p override g = Inr ((p', m', t), g') \<and>
           shape p' = [H, W, C] \<and> shape m' = [H, W, C] \<and>
           (\<forall>u\<in>sset g'. 0 \<le> u \<and> u < 1)"
proof -
  note f = channels_last_fields[OF init cl s]
  note fi = init_fields[OF init]
  note d = sset_draws[OF unit]
  define angle where "angle = fst (uniform (- rotation_max a) (rotation_max a) g)"
  define sg where "sg = (case override of
                  None \<Rightarrow> uniform (scale_min a) (scale_max a)
                            (snd (uniform (- rotation_max a) (rotation_max a) g))
                | Some s \<Rightarrow> (s, snd (uniform (- rotation_max a) (rotation_max a) g)))"
  have scale: "0 \<le> fst sg" "fst sg \<le> 1"
    using uniform_between[of "scale_min a" "scale_max a" "stl g"] fi(8,9,10) d(3,4) ov
    by (auto simp: sg_def split: option.splits)
  have g2: "\<forall>u\<in>sset (snd sg). 0 \<le> u \<and> u < 1"
    using unit by (auto simp: sg_def split: option.splits dest: stl_sset)
  obtain m where m: "get_circular_patch_mask a 40 = Inr m" "shape m = [H, W, C]"
    using mask_channels_last[OF init cl s, of 40] by blast
  define pr where "pr = nd_rotate nd p angle (0, 1)"
  define mr where "mr = nd_rotate nd m angle (0, 1)"
  have r1: "rotate_np nd a p angle = Inr pr" and r2: "rotate_np nd a m angle = Inr mr"
    by (simp_all add: pr_def mr_def rotate_np_channels_last[OF init cl s] p m(2))
  have rs: "shape pr = [H, W, C]" "shape mr = [H, W, C]"
    using nd by (simp_all add: pr_def mr_def ndimage_shapes_def p m(2))
  obtain ps where ps: "scale_np nd a pr (fst sg) = Inr ps" "shape ps = [H, W, C]"
    using scale_np_unit[OF init cl s nd rs(1) scale] by blast
  obtain ms where ms: "scale_np nd a mr (fst sg) = Inr ms" "shape ms = [H, W, C]"
    using scale_np_unit[OF init cl s nd rs(2) scale] by blast
  have ix: "py_index (input_shape (estimator a)) (int (i_h a)) = Inr H"
    "py_index (patch_shape a) (int (i_h a)) = Inr H"
    "py_index (input_shape (estimator a)) (int (i_w a)) = Inr W"
    "py_index (patch_shape a) (int (i_w a)) = Inr W"
    by (simp_all add: f py_index_def)
  have sh1: "\<And>h w. shift_np nd a ps h w = Inr (nd_shift nd ps [h, w, 0], h, w)"
    and sh2: "\<And>h w. shift_np nd a ms h w = Inr (nd_shift nd ms [h, w, 0], h, w)"
    by (simp_all add: shift_np_channels_last[OF init cl s] ps(2) ms(2))
  have ss: "\<And>v. shape (nd_shift nd ps v) = [H, W, C]" "\<And>v. shape (nd_shift nd ms v) = [H, W, C]"
    using nd by (simp_all add: ndimage_shapes_def ps(2) ms(2))
  note facts = m(1) r1[unfolded angle_def] r2[unfolded angle_def] ps(1)[unfolded sg_def]
    ms(1)[unfolded sg_def] ix
  have "\<exists>p' m' t. random_transformation nd a p override g =
          Inr ((p', m', t),
               if 0 < (real H - real H * fst sg) / 2 \<and> 0 < (real W - real W * fst sg) / 2
               then stl (stl (snd sg)) else snd sg) \<and>
          shape p' = [H, W, C] \<and> shape m' = [H, W, C]"
  proof (cases "0 < (real H - real H * fst sg) / 2 \<and> 0 < (real W - real W * fst sg) / 2")
    case True
    have "random_transformation nd a p override g =
          Inr ((nd_shift nd ps
                  [fst (uniform (- ((real H - real H * fst sg) / 2)) ((real H - real H * fst sg) / 2) (snd sg)),
                   fst (uniform (- ((real W - real W * fst sg) / 2)) ((real W - real W * fst sg) / 2)
                          (snd (uniform (- ((real H - real H * fst sg) / 2))
                                  ((real H - real H * fst sg) / 2) (snd sg)))), 0],
                nd_shift nd ms
                  [fst (uniform (- ((real H - real H * fst sg) / 2)) ((real H - real H * fst sg) / 2) (snd sg)),
                   fst (uniform (- ((real W - real W * fst sg) / 2)) ((real W - real W * fst sg) / 2)
                          (snd (uniform (- ((real H - real H * fst sg) / 2))
                                  ((real H - real H * fst sg) / 2) (snd sg)))), 0],
                [''rotate'' \<mapsto> Float angle, ''scale'' \<mapsto> Float (fst sg),
                 ''shift_1'' \<mapsto> Float (fst (uniform (- ((real H - real H * fst sg) / 2))
                                             ((real H - real H * fst sg) / 2) (snd sg))),
                 ''shift_2'' \<mapsto> Float (fst (uniform (- ((real W - real W * fst sg) / 2))
                                             ((real W - real W * fst sg) / 2)
                                             (snd (uniform (- ((real H - real H * fst sg) / 2))
                                                     ((real H - real H * fst sg) / 2) (snd sg)))))]),
               snd (uniform (- ((real W - real W * fst sg) / 2)) ((real W - real W * fst sg) / 2)
                      (snd (uniform (- ((real H - real H * fst sg) / 2))
                              ((real H - real H * fst sg) / 2) (snd sg)))))"
      unfolding random_transformation_def Let_def case_prod_beta angle_def sg_def
      using True[unfolded sg_def]
      by (simp only: facts and_then_Inr sh1 sh2 fst_conv snd_conv simp_thms if_True)
    with True show ?thesis by (simp add: ss)
  next
    case False
    have "random_transformation nd a p override g =
          Inr ((ps, ms, [''rotate'' \<mapsto> Float angle, ''scale'' \<mapsto> Float (fst sg),
                         ''shift'' \<mapsto> Tuple [0, 0, 0]]), snd sg)"
      unfolding random_transformation_def Let_def case_prod_beta angle_def sg_def
      using False[unfolded sg_def]
      by (simp only: facts and_then_Inr fst_conv snd_conv simp_thms if_False)
    with False show ?thesis by (auto simp: ps(2) ms(2))
  qed
  moreover have "\<forall>u\<in>sset (if 0 < (real H - real H * fst sg) / 2 \<and> 0 < (real W - real W * fst sg) / 2
               then stl (stl (snd sg)) else snd sg). 0 \<le> u \<and> u < 1"
    using g2 by (auto dest: stl_sset)
  ultimately show ?thesis by blast
qed

lemma default_attack_facts:
  assumes da: "default_attack [h, w, ch] 16 = Inr a"
  shows "AdversarialPatchNumpy_init (identity_classifier [h, w, ch] False (0, 1)) 0
           (45 / 2) (1 / 10) 1 5 500 16 = Inr a"
    and "\<not> channels_first (identity_classifier [h, w, ch] False (0, 1))"
    and "input_shape (identity_classifier [h, w, ch] False (0, 1)) = [h, w, ch]"
    and "shape (patch a) = [h, w, ch]"
proof -
  show i: "AdversarialPatchNumpy_init (identity_classifier [h, w, ch] False (0, 1)) 0
           (45 / 2) (1 / 10) 1 5 500 16 = Inr a"
    using da by (simp add: default_attack_def)
  show "\<not> channels_first (identity_classifier [h, w, ch] False (0, 1))"
    and s: "input_shape (identity_classifier [h, w, ch] False (0, 1)) = [h, w, ch]"
    by (simp_all add: identity_classifier_def)
  show "shape (patch a) = [h, w, ch]"
    using init_fields(15)[OF i] s by simp
qed

lemma sconst_unit: "\<forall>u\<in>sset (sconst (1 / 2 :: real)). 0 \<le> u \<and> u < 1"
  by simp

text \<open>
  Witness for C7: the default attack on 4 x 4 x 1 images with every draw equal to 1/2.
  Without an override the angle is 0, the scale 11/20 and both shifts 0; with the
  override 1 the patch fills the frame and the record holds \<open>shift = (0, 0, 0)\<close>.
\<close>

theorem random_transformation_ranges_witness:
  "and_then (default_attack [4, 4, 1] 16)
     (\<lambda>a. map_sum id
        (\<lambda>((p, m, t), g). (t ''rotate'', t ''scale'', t ''shift_1'', t ''shift_2'', t ''shift''))
        (random_transformation nearest_ndimage a (patch a) None (sconst (1 / 2)))) =
     Inr (Some (Float 0), Some (Float (11 / 20)), Some (Float 0), Some (Float 0), None) \<and>
   and_then (default_attack [4, 4, 1] 16)
     (\<lambda>a. map_sum id
        (\<lambda>((p, m, t), g). (t ''rotate'', t ''scale'', t ''shift_1'', t ''shift_2'', t ''shift''))
        (random_transformation nearest_ndimage a (patch a) (Some 1) (sconst (1 / 2)))) =
     Inr (Some (Float 0), Some (Float 1), None, None, Some (Tuple [0, 0, 0]))"
proof -
  obtain a where da: "default_attack [4, 4, 1] 16 = Inr a"
    by (simp add: default_attack_init)
  note f = default_attack_facts[OF da]
  have a: "rotation_max a = 45 / 2" "scale_min a = 1 / 10" "scale_max a = 1"
    "i_h a = 0" "i_w a = 1" "patch_shape a = [4, 4, 1]" "input_shape (estimator a) = [4, 4, 1]"
    using da by (auto simp: default_attack_init identity_classifier_def)
  obtain p1 m1 t1 g1 where
    run1: "random_transformation nearest_ndimage a (patch a) None (sconst (1 / 2)) = Inr ((p1, m1, t1), g1)"
    using random_transformation_returns[OF f(1,2,3) nearest_ndimage_shapes f(4) sconst_unit, of None]
    by auto
  obtain p2 m2 t2 g2 where
    run2: "random_transformation nearest_ndimage a (patch a) (Some 1) (sconst (1 / 2)) = Inr ((p2, m2, t2), g2)"
    using random_transformation_returns[OF f(1,2,3) nearest_ndimage_shapes f(4) sconst_unit, of "Some 1"]
    by auto
  note R1 = random_transformation_ranges[OF f(1) sconst_unit run1]
  note R2 = random_transformation_ranges[OF f(1) sconst_unit run2]
  have t1: "t1 = [''rotate'' \<mapsto> Float 0, ''scale'' \<mapsto> Float (11 / 20),
                  ''shift_1'' \<mapsto> Float 0, ''shift_2'' \<mapsto> Float 0]"
    using random_transformation_record[OF run1]
    by (simp add: a shift_max_def uniform_def)
  have t2: "t2 = [''rotate'' \<mapsto> Float 0, ''scale'' \<mapsto> Float 1, ''shift'' \<mapsto> Tuple [0, 0, 0]]"
    using random_transformation_record[OF run2]
    by (simp add: a shift_max_def uniform_def)
  show ?thesis
    unfolding da using R1 R2 by (simp add: run1 run2 t1 t2)
qed

text \<open>
  Witness for C8: the mask of the default attack on 3 x 3 x 1 images.
\<close>

theorem circular_patch_mask_produced_witness:
  "and_then (default_attack [3, 3, 1] 16)
     (\<lambda>a. map_sum id
        (\<lambda>m. (shape m, list_all (\<lambda>v. 0 \<le> v \<and> v \<le> 1) (to_list m), array_equal (rot90 m) m))
        (get_circular_patch_mask a 40)) = Inr ([3, 3, 1], True, True)"
proof -
  obtain a where da: "default_attack [3, 3, 1] 16 = Inr a"
    by (simp add: default_attack_init)
  note f = default_attack_facts[OF da]
  obtain m where run: "get_circular_patch_mask a 40 = Inr m"
    using mask_channels_last[OF f(1,2,3), of 40] by auto
  from circular_patch_mask_produced[OF f(1) f(3) run] show ?thesis
    unfolding da by (simp add: run)
qed

text \<open>
  Counterexample to C8 as stated.  On 3 x 4 x 1 images the footprint is 3 x 3 and is
  padded by one column on the right only: the mask has its single 1 in row 1, column 1,
  its rotation by 90 degrees has shape 4 x 3 x 1, and the two are not equal.
\<close>

theorem circular_patch_mask_rectangle_counterexample:
  "and_then (default_attack [3, 4, 1] 16)
     (\<lambda>a. map_sum id
        (\<lambda>m. (shape m, to_list m, shape (rot90 m), array_equal (rot90 m) m))
        (get_circular_patch_mask a 40)) =
   Inr ([3, 4, 1], [0, 0, 0, 0, 0, 1, 0, 0, 0, 0, 0, 0], [4, 3, 1], False)"
proof -
  obtain a where da: "default_attack [3, 4, 1] 16 = Inr a"
    by (simp add: default_attack_init)
  note f = default_attack_facts[OF da]
  from mask_channels_last[OF f(1,2,3), of 40] obtain m where
    run: "get_circular_patch_mask a 40 = Inr m" and sh: "shape m = [3, 4, 1]"
    and el: "\<And>i j k. i < 3 \<Longrightarrow> j < 4 \<Longrightarrow> k < 1 \<Longrightarrow>
              elem m [i, j, k] =
                (if centre_offset 3 (min 3 4) \<le> i \<and> i < centre_offset 3 (min 3 4) + min 3 4 \<and>
                    centre_offset 4 (min 3 4) \<le> j \<and> j < centre_offset 4 (min 3 4) + min 3 4
                 then 1 - clip (- 1) 1
                        (((elem (linspace (- 1) 1 (min 3 4)) [j - centre_offset 4 (min 3 4)])\<^sup>2 +
                          (elem (linspace (- 1) 1 (min 3 4)) [i - centre_offset 3 (min 3 4)])\<^sup>2)
                         ^ 40)
                 else 0)"
    by auto
  have tl: "to_list m = [0, 0, 0, 0, 0, 1, 0, 0, 0, 0, 0, 0]"
    by (simp add: to_list_def sh upt_conv_Cons el centre_offset_def linspace_elem clip_def)
  have r: "shape (rot90 m) = [4, 3, 1]" by (simp add: rot90_def sh)
  show ?thesis
    unfolding da by (simp add: run sh tl r array_equal_def)
qed

section \<open>Adversarial patch: the inverse transformation and the optimisation step\<close>

lemma broadcast_rev_same: "broadcast_rev xs xs = Some xs"
  by (induction xs) simp_all

lemma broadcast_shapes_same: "broadcast_shapes s s = Some s"
  by (simp add: broadcast_shapes_def broadcast_rev_same)

lemma binop_same:
  "shape x = s \<Longrightarrow> shape y = s \<Longrightarrow>
   binop f x y = Inr \<lparr>shape = s, elem = (\<lambda>idx. f (elem x (bcast_index s idx))
                                                 (elem y (bcast_index s idx)))\<rparr>"
  by (simp add: binop_def broadcast_shapes_same)

lemma record_lacks_shift_keys:
  assumes "random_transformation nd a p override g = Inr ((p', m', t), g')"
  shows "t ''shift_h'' = None" and "t ''shift_w'' = None"
  using random_transformation_record[OF assms] by (auto split: if_splits)

lemma reverse_transformation_no_key:
  assumes "t ''shift_h'' = None"
  shows "reverse_transformation nd a gr mk t =
           (case broadcast_shapes (shape gr) (shape mk) of
              None \<Rightarrow> Inl (ValueError ''operands could not be broadcast together'')
            | Some s \<Rightarrow> Inl (KeyError ''shift_h''))"
  using assms by (simp add: reverse_transformation_def binop_def dict_get_def split: option.splits)

lemma augment_loop_returns:
  assumes init: "AdversarialPatchNumpy_init c tgt rot smin smax lr iters bs = Inr a"
    and cl: "\<not> channels_first c" and s: "input_shape c = [H, W, C]"
    and nd: "ndimage_shapes nd" and im: "shape images = [N, H, W, C]"
    and p: "shape p = [H, W, C]"
    and ov: "case override of None \<Rightarrow> True | Some v \<Rightarrow> 0 \<le> v \<and> v \<le> 1"
  shows "(\<forall>i\<in>set idxs. i < N) \<Longrightarrow> (\<forall>u\<in>sset g. 0 \<le> u \<and> u < 1) \<Longrightarrow>
         (\<forall>q\<in>set pis. shape q = [1, H, W, C]) \<Longrightarrow> (\<forall>q\<in>set mks. shape q = [1, H, W, C]) \<Longrightarrow>
         (\<forall>t\<in>set ts. t ''shift_h'' = None) \<Longrightarrow>
         \<exists>pis' mks' ts' g'.
           augment_loop nd a images p override idxs (pis, mks, ts) g = Inr ((pis', mks', ts'), g') \<and>
           length pis' = length pis + length idxs \<and> length mks' = length mks + length idxs \<and>
           length ts' = length ts + length idxs \<and>
           (\<forall>q\<in>set pis'. shape q = [1, H, W, C]) \<and> (\<forall>q\<in>set mks'. shape q = [1, H, W, C]) \<and>
           (\<forall>t\<in>set ts'. t ''shift_h'' = None) \<and> (\<forall>u\<in>sset g'. 0 \<le> u \<and> u < 1)"
proof (induction idxs arbitrary: pis mks ts g)
  case Nil
  then show ?case by simp
next
  case (Cons i idxs)
  from random_transformation_returns[OF init cl s nd p Cons.prems(2) ov]
  obtain p' m' t g1 where run: "random_transformation nd a p override g = Inr ((p', m', t), g1)"
    and sp: "shape p' = [H, W, C]" and sm: "shape m' = [H, W, C]"
    and g1: "\<forall>u\<in>sset g1. 0 \<le> u \<and> u < 1"
    by blast
  note t = record_lacks_shift_keys(1)[OF run]
  from Cons.prems(1) have i: "i < N" and rest: "\<forall>i\<in>set idxs. i < N" by simp_all
  define image where "image = \<lparr>shape = [H, W, C], elem = (\<lambda>idx. elem images (i # idx))\<rparr>"
  have sel: "select0 images i 3 = Inr image"
    using i by (simp add: select0_def im image_def)
  define pim where "pim = \<lparr>shape = [1, H, W, C],
      elem = (\<lambda>idx. elem image (bcast_index [H, W, C] (bcast_index [H, W, C] (drop (Suc 0) idx))) *
                    (1 - elem m' (bcast_index [H, W, C] (bcast_index [H, W, C] (drop (Suc 0) idx)))) +
                    elem p' (bcast_index [H, W, C] (bcast_index [H, W, C] (drop (Suc 0) idx))) *
                    elem m' (bcast_index [H, W, C] (bcast_index [H, W, C] (drop (Suc 0) idx))))\<rparr>"
  define mk where "mk = \<lparr>shape = [1, H, W, C], elem = (\<lambda>idx. elem m' (drop (Suc 0) idx))\<rparr>"
  have step: "augment_loop nd a images p override (i # idxs) (pis, mks, ts) g =
        augment_loop nd a images p override idxs (pis @ [pim], mks @ [mk], ts @ [t]) g1"
    by (simp add: run sel Let_def binop_same[where s = "[H, W, C]"] sp sm amap_def image_def
        expand_dims_def pim_def mk_def)
  have "\<exists>pis' mks' ts' g'.
      augment_loop nd a images p override idxs (pis @ [pim], mks @ [mk], ts @ [t]) g1 =
        Inr ((pis', mks', ts'), g') \<and>
      length pis' = length (pis @ [pim]) + length idxs \<and>
      length mks' = length (mks @ [mk]) + length idxs \<and>
      length ts' = length (ts @ [t]) + length idxs \<and>
      (\<forall>q\<in>set pis'. shape q = [1, H, W, C]) \<and> (\<forall>q\<in>set mks'. shape q = [1, H, W, C]) \<and>
      (\<forall>t\<in>set ts'. t ''shift_h'' = None) \<and> (\<forall>u\<in>sset g'. 0 \<le> u \<and> u < 1)"
    using Cons.prems(3,4,5) t
    by (intro Cons.IH[OF rest g1]) (auto simp: pim_def mk_def)
  then show ?case unfolding step by auto
qed

lemma concatenate_unit_rows:
  assumes "xs \<noteq> []" and "\<forall>x\<in>set xs. shape x = 1 # r"
  shows "\<exists>y. concatenate xs = Inr y \<and> shape y = length xs # r"
proof -
  from assms(1) obtain x rest where xs: "xs = x # rest" by (cases xs) auto
  have sum: "sum_list (map (\<lambda>y. hd (shape y)) xs) = length xs"
    using assms(2) by (induction xs) simp_all
  have "\<not> list_ex (\<lambda>y. shape y = [] \<or> tl (shape y) \<noteq> tl (shape x)) rest"
    using assms(2) by (auto simp: xs list_ex_iff)
  moreover have "shape x = 1 # r" using assms(2) by (simp add: xs)
  ultimately show ?thesis
    using sum by (simp add: concatenate_def xs)
qed

lemma augment_returns:
  assumes init: "AdversarialPatchNumpy_init c tgt rot smin smax lr iters bs = Inr a"
    and cl: "\<not> channels_first c" and s: "input_shape c = [H, W, C]"
    and nd: "ndimage_shapes nd" and im: "shape images = [N, H, W, C]" and n: "0 < N"
    and p: "shape p = [H, W, C]"
    and unit: "\<forall>u\<in>sset g. 0 \<le> u \<and> u < 1"
    and ov: "case override of None \<Rightarrow> True | Some v \<Rightarrow> 0 \<le> v \<and> v \<le> 1"
  shows "\<exists>xp pm ts g'.
           augment_images_with_random_patch nd a images p override g = Inr ((xp, pm, ts), g') \<and>
           shape xp = [N, H, W, C] \<and> shape pm = [N, H, W, C] \<and> length ts = N \<and>
           (\<forall>t\<in>set ts. t ''shift_h'' = None) \<and> (\<forall>u\<in>sset g'. 0 \<le> u \<and> u < 1)"
proof -
  from augment_loop_returns[OF init cl s nd im p ov, of "[0..<N]" g "[]" "[]" "[]"] unit
  obtain pis mks ts g' where
    loop: "augment_loop nd a images p override [0..<N] ([], [], []) g = Inr ((pis, mks, ts), g')"
    and len: "length pis = N" "length mks = N" "length ts = N"
    and sh: "\<forall>q\<in>set pis. shape q = [1, H, W, C]" "\<forall>q\<in>set mks. shape q = [1, H, W, C]"
    and t: "\<forall>t\<in>set ts. t ''shift_h'' = None" and g': "\<forall>u\<in>sset g'. 0 \<le> u \<and> u < 1"
    by auto
  from len n have ne: "pis \<noteq> []" "mks \<noteq> []" by auto
  from concatenate_unit_rows[OF ne(1) sh(1)] len obtain xp where
    xp: "concatenate pis = Inr xp" "shape xp = [N, H, W, C]" by auto
  from concatenate_unit_rows[OF ne(2) sh(2)] len obtain pm where
    pm: "concatenate mks = Inr pm" "shape pm = [N, H, W, C]" by auto
  have "augment_images_with_random_patch nd a images p override g = Inr ((xp, pm, ts), g')"
    by (simp add: augment_images_with_random_patch_def im py_index_def loop xp(1) pm(1))
  with xp(2) pm(2) len(3) t g' show ?thesis by blast
qed

lemma py_int_div:
  assumes "0 < b"
  shows "py_int (real n / real_of_int b) = int n div b"
proof -
  have "0 \<le> real n / real_of_int b" using assms by simp
  then have "py_int (real n / real_of_int b) = \<lfloor>real n / real_of_int b\<rfloor>"
    by (simp add: py_int_def)
  also have "\<dots> = \<lfloor>real_of_int (int n) / real_of_int b\<rfloor>" by simp
  also have "\<dots> = int n div b" by (rule floor_divide_of_int_eq)
  finally show ?thesis .
qed

lemma update_patch_clipped:
  assumes "update_patch a pg = Inr a'"
  shows "estimator a' = estimator a" and "batch_size a' = batch_size a"
    and "shape (patch a') = shape (patch a)"
    and "\<And>idx. elem (patch a') idx =
           clip (fst (clip_values (estimator a))) (snd (clip_values (estimator a)))
             (elem (patch a) (bcast_index (shape (patch a)) idx) -
              elem pg (bcast_index (shape pg) idx) * learning_rate a)"
proof -
  from assms obtain q where q: "inplace_op (-) (patch a) (amap (\<lambda>v. v * learning_rate a) pg) = Inr q"
    and a': "a' = a\<lparr>patch := amap (clip (fst (clip_values (estimator a)))
                                       (snd (clip_values (estimator a)))) q\<rparr>"
    by (auto simp: update_patch_def and_then_eq_Inr)
  from q have b: "broadcast_shapes (shape (patch a)) (shape pg) = Some (shape (patch a))"
    and q': "q = \<lparr>shape = shape (patch a),
                  elem = (\<lambda>idx. elem (patch a) (bcast_index (shape (patch a)) idx) -
                                elem pg (bcast_index (shape pg) idx) * learning_rate a)\<rparr>"
    by (auto simp: inplace_op_def binop_def amap_def split: if_splits)
  show "estimator a' = estimator a" and "batch_size a' = batch_size a"
    and "shape (patch a') = shape (patch a)"
    and "\<And>idx. elem (patch a') idx =
           clip (fst (clip_values (estimator a))) (snd (clip_values (estimator a)))
             (elem (patch a) (bcast_index (shape (patch a)) idx) -
              elem pg (bcast_index (shape pg) idx) * learning_rate a)"
    by (simp_all add: a' q' amap_def)
qed

lemma clip_between: "lo \<le> hi \<Longrightarrow> lo \<le> clip lo hi v \<and> clip lo hi v \<le> hi"
  by (simp add: clip_def)

lemma update_patch_same_shape:
  assumes "shape pg = shape (patch a)"
  shows "\<exists>a'. update_patch a pg = Inr a'"
  using assms by (simp add: update_patch_def inplace_op_def binop_def amap_def broadcast_shapes_same)

lemma generate_step_Inr:
  assumes "generate_step nd a x y g = Inr (a', g')"
  shows "\<exists>pg. update_patch a pg = Inr a'"
  using assms
  by (auto simp: generate_step_def and_then_eq_Inr Let_def split: if_splits prod.splits)

lemma image_loop_raises:
  assumes "shape gradients = [B, H, W, C]" and "0 < B"
    and "shape pm = [N, H, W, C]" and "0 < N"
    and "ts \<noteq> []" and "\<forall>t\<in>set ts. t ''shift_h'' = None"
  shows "image_loop nd a gradients pm ts (0 # rest) pg = Inl (KeyError ''shift_h'')"
proof -
  from assms(5,6) have t: "(ts ! 0) ''shift_h'' = None" by (cases ts) auto
  from assms(5) have ix: "py_index ts 0 = Inr (ts ! 0)" by (simp add: py_index_def)
  show ?thesis
    using assms(1-4)
    by (simp add: select0_def ix reverse_transformation_no_key[of "ts ! 0", OF t] broadcast_shapes_same)
qed

lemma getitem_leading_slice:
  assumes "shape x = n # rest" and "0 < b" and "b \<le> int n"
  shows "\<exists>xb. getitem x [Some (0, b)] = Inr xb \<and> shape xb = nat b # rest"
proof -
  have "slice_window (n # rest) [Some (0, b)] = (0, nat b) # slice_window rest []"
    using assms(2,3) by (simp add: slice_window1_def slice_bound_def min_def)
  moreover have "map snd (slice_window rest []) = rest" for rest :: "nat list"
    by (induction rest) simp_all
  ultimately show ?thesis
    by (simp add: getitem_def assms(1) Let_def)
qed

lemma batch_loop_raises:
  assumes b: "0 < batch_size a" and le: "batch_size a \<le> int N"
    and xp: "shape xp = [N, H, W, C]" and y: "shape y \<noteq> []"
    and grad: "\<forall>xb yb. shape (loss_gradient (estimator a) xb yb) = shape xb"
    and pm: "shape pm = [N, H, W, C]"
    and ts: "ts \<noteq> []" "\<forall>t\<in>set ts. t ''shift_h'' = None"
  shows "batch_loop nd a xp y pm ts (0 # rest) pg = Inl (KeyError ''shift_h'')"
proof -
  from getitem_leading_slice[OF xp b le] obtain xb where
    xb: "getitem xp [Some (0, batch_size a)] = Inr xb" "shape xb = [nat (batch_size a), H, W, C]"
    by auto
  from y have "\<exists>yb. getitem y [Some (0, batch_size a)] = Inr yb"
    by (cases "shape y") (simp_all add: getitem_def Let_def)
  then obtain yb where yb: "getitem y [Some (0, batch_size a)] = Inr yb" by blast
  have gs: "shape (loss_gradient (estimator a) xb yb) = [nat (batch_size a), H, W, C]"
    using grad xb(2) by simp
  from b have nb: "0 < nat (batch_size a)" by simp
  from le b have n: "0 < N" by linarith
  have up: "[0..<nat (batch_size a)] = 0 # [Suc 0..<nat (batch_size a)]"
    using nb by (simp add: upt_conv_Cons)
  show ?thesis
    by (simp add: Let_def xb(1) yb up image_loop_raises[OF gs nb pm n ts] del: image_loop.simps)
qed

lemma generate_step_raises:
  assumes init: "AdversarialPatchNumpy_init c tgt rot smin smax lr iters bs = Inr a"
    and cl: "\<not> channels_first c" and s: "input_shape c = [H, W, C]"
    and nd: "ndimage_shapes nd" and x: "shape x = [N, H, W, C]"
    and y: "shape y \<noteq> []"
    and grad: "\<forall>xb yb. shape (loss_gradient c xb yb) = shape xb"
    and unit: "\<forall>u\<in>sset g. 0 \<le> u \<and> u < 1"
    and le: "batch_size a \<le> int N"
  shows "generate_step nd a x y g = Inl (KeyError ''shift_h'')"
proof -
  note f = init_fields[OF init]
  from le f(13) have n: "0 < N" by linarith
  have p: "shape (patch a) = [H, W, C]" using f(15) s by simp
  from augment_returns[OF init cl s nd x n p unit, of None]
  obtain xp pm ts g' where
    aug: "augment_images_with_random_patch nd a x (patch a) None g = Inr ((xp, pm, ts), g')"
    and sh: "shape xp = [N, H, W, C]" "shape pm = [N, H, W, C]" and len: "length ts = N"
    and t: "\<forall>t\<in>set ts. t ''shift_h'' = None"
    by auto
  from len n have ne: "ts \<noteq> []" by auto
  have "0 < int N div batch_size a"
    using le pos_imp_zdiv_pos_iff[OF f(13), of "int N"] by simp
  then have "0 < nat (int N div batch_size a)" by simp
  then have up: "[0..<nat (int N div batch_size a)] = 0 # [Suc 0..<nat (int N div batch_size a)]"
    by (simp add: upt_conv_Cons)
  have grad': "\<forall>xb yb. shape (loss_gradient (estimator a) xb yb) = shape xb"
    using grad f(1) by simp
  have nz: "batch_size a \<noteq> 0" using f(13) by simp
  show ?thesis
    by (simp add: generate_step_def aug x py_index_def nz py_int_div[OF f(13)] Let_def up
        batch_loop_raises[OF f(13) le sh(1) y grad' sh(2) ne t] del: batch_loop.simps)
qed

lemma generate_step_returns:
  assumes init: "AdversarialPatchNumpy_init c tgt rot smin smax lr iters bs = Inr a"
    and cl: "\<not> channels_first c" and s: "input_shape c = [H, W, C]"
    and nd: "ndimage_shapes nd" and x: "shape x = [N, H, W, C]" and n: "0 < N"
    and unit: "\<forall>u\<in>sset g. 0 \<le> u \<and> u < 1"
    and less: "int N < batch_size a"
  shows "\<exists>a' g'. generate_step nd a x y g = Inr (a', g') \<and>
           update_patch a (zeros_like (patch a)) = Inr a'"
proof -
  note f = init_fields[OF init]
  have p: "shape (patch a) = [H, W, C]" using f(15) s by simp
  from augment_returns[OF init cl s nd x n p unit, of None]
  obtain xp pm ts g' where
    aug: "augment_images_with_random_patch nd a x (patch a) None g = Inr ((xp, pm, ts), g')"
    by auto
  have z: "int N div batch_size a = 0"
    using less by (simp add: div_pos_pos_trivial)
  have nz: "batch_size a \<noteq> 0" using f(13) by simp
  obtain a' where a': "update_patch a (zeros_like (patch a)) = Inr a'"
    using update_patch_same_shape[of "zeros_like (patch a)" a]
    by (auto simp: zeros_like_def full_def)
  have "generate_step nd a x y g = Inr (a', g')"
    by (simp add: generate_step_def aug x py_index_def nz py_int_div[OF f(13)] Let_def z a')
  with a' show ?thesis by blast
qed

lemma generate_step_range:
  assumes cv: "fst (clip_values (estimator a)) \<le> snd (clip_values (estimator a))"
    and run: "generate_step nd a x y g = Inr (a', g')"
  shows "estimator a' = estimator a"
    and "\<And>idx. fst (clip_values (estimator a)) \<le> elem (patch a') idx \<and>
                elem (patch a') idx \<le> snd (clip_values (estimator a))"
proof -
  from generate_step_Inr[OF run] obtain pg where pg: "update_patch a pg = Inr a'" by blast
  show "estimator a' = estimator a" by (rule update_patch_clipped(1)[OF pg])
  show "\<And>idx. fst (clip_values (estimator a)) \<le> elem (patch a') idx \<and>
                elem (patch a') idx \<le> snd (clip_values (estimator a))"
    unfolding update_patch_clipped(4)[OF pg] by (rule clip_between[OF cv])
qed

lemma generate_loop_range:
  "fst (clip_values (estimator a)) \<le> snd (clip_values (estimator a)) \<Longrightarrow>
   generate_loop nd x y (Suc k) a g = Inr (a', g') \<Longrightarrow>
   estimator a' = estimator a \<and>
   (\<forall>idx. fst (clip_values (estimator a)) \<le> elem (patch a') idx \<and>
          elem (patch a') idx \<le> snd (clip_values (estimator a)))"
proof (induction k arbitrary: a g)
  case 0
  then have "generate_step nd a x y g = Inr (a', g')"
    by (auto simp: and_then_eq_Inr)
  from generate_step_range[OF 0(1) this] show ?case by blast
next
  case (Suc k)
  from Suc.prems(2) obtain a1 g1 where
    st: "generate_step nd a x y g = Inr (a1, g1)"
    and lp: "generate_loop nd x y (Suc k) a1 g1 = Inr (a', g')"
    by (auto simp: and_then_eq_Inr)
  note e = generate_step_range(1)[OF Suc.prems(1) st]
  from Suc.IH[of a1 g1] Suc.prems(1) lp e show ?case by simp
qed

text \<open>
  Claim C1.  A record the sampler returns holds the keys \<open>rotate\<close>, \<open>scale\<close> and
  either \<open>shift_1\<close>, \<open>shift_2\<close> or \<open>shift\<close>, never \<open>shift_h\<close> or
  \<open>shift_w\<close>.  The inverse chain reads \<open>shift_h\<close> first, right after masking the
  tensor: for every record produced by sampling and every tensor and mask it raises, the
  \<open>KeyError\<close> of the missing key when tensor and mask broadcast, and it recovers nothing.
\<close>

theorem reverse_transformation_key_error:
  assumes run: "random_transformation nd a p override g = Inr ((p', m', t), g')"
  shows "t ''shift_h'' = None \<and> t ''shift_w'' = None \<and>
         reverse_transformation nd a gr mk t =
           (case broadcast_shapes (shape gr) (shape mk) of
              None \<Rightarrow> Inl (ValueError ''operands could not be broadcast together'')
            | Some s \<Rightarrow> Inl (KeyError ''shift_h''))"
  using record_lacks_shift_keys[OF run] reverse_transformation_no_key[of t nd a gr mk]
  by simp

text \<open>
  Witness for C1: the default attack on 4 x 4 x 1 images with every draw equal to 1/2.
  The sampler returns the transformed patch, its mask and the record; inverting the
  transformed patch with that record raises the \<open>KeyError\<close>.
\<close>

theorem reverse_transformation_key_error_witness:
  "and_then (default_attack [4, 4, 1] 16)
     (\<lambda>a. and_then (random_transformation nearest_ndimage a (patch a) None (sconst (1 / 2)))
        (\<lambda>((p, m, t), g). reverse_transformation nearest_ndimage a p m t)) =
   Inl (KeyError ''shift_h'')"
proof -
  obtain a where da: "default_attack [4, 4, 1] 16 = Inr a"
    by (simp add: default_attack_init)
  note f = default_attack_facts[OF da]
  obtain p1 m1 t1 g1 where
    run1: "random_transformation nearest_ndimage a (patch a) None (sconst (1 / 2)) = Inr ((p1, m1, t1), g1)"
    and sh: "shape p1 = [4, 4, 1]" "shape m1 = [4, 4, 1]"
    using random_transformation_returns[OF f(1,2,3) nearest_ndimage_shapes f(4) sconst_unit, of None]
    by auto
  from reverse_transformation_key_error[OF run1, of p1 m1] show ?thesis
    unfolding da by (simp add: run1 sh broadcast_shapes_same)
qed

text \<open>
  Claim C5.  One pass of the optimisation loop over \<open>N\<close> channels-last images with batch
  size \<open>B\<close> sets out to run \<open>floor(N / B)\<close> batches.  When that number is 0 the pass
  returns and the patch is updated with the zero gradient: no image contributes.  When it
  is at least 1, the first batch is sent to the gradient query and the inverse
  transformation of its first image raises the \<open>KeyError\<close> of claim C1: the pass ends
  there and nothing is accumulated.
\<close>

theorem generate_step_batches:
  assumes init: "AdversarialPatchNumpy_init c tgt rot smin smax lr iters bs = Inr a"
    and cl: "\<not> channels_first c" and s: "input_shape c = [H, W, C]"
    and nd: "ndimage_shapes nd" and x: "shape x = [N, H, W, C]" and n: "0 < N"
    and y: "shape y \<noteq> []"
    and grad: "\<forall>xb yb. shape (loss_gradient c xb yb) = shape xb"
    and unit: "\<forall>u\<in>sset g. 0 \<le> u \<and> u < 1"
  shows "(int N div batch_size a = 0 \<longrightarrow>
           (\<exists>a' g'. generate_step nd a x y g = Inr (a', g') \<and>
                    update_patch a (zeros_like (patch a)) = Inr a')) \<and>
         (0 < int N div batch_size a \<longrightarrow>
           generate_step nd a x y g = Inl (KeyError ''shift_h''))"
proof (intro conjI impI)
  note b = init_fields(13)[OF init]
  assume "int N div batch_size a = 0"
  then have "int N < batch_size a"
    using b by (auto simp: zdiv_eq_0_iff)
  from generate_step_returns[OF init cl s nd x n unit this]
  show "\<exists>a' g'. generate_step nd a x y g = Inr (a', g') \<and>
                    update_patch a (zeros_like (patch a)) = Inr a'" .
next
  note b = init_fields(13)[OF init]
  assume "0 < int N div batch_size a"
  then have "batch_size a \<le> int N"
    using pos_imp_zdiv_pos_iff[OF b, of "int N"] by simp
  from generate_step_raises[OF init cl s nd x y grad unit this]
  show "generate_step nd a x y g = Inl (KeyError ''shift_h'')" .
qed

text \<open>
  Witness for C5: the default attack with batch size 16 on 4 x 4 x 1 images, every draw
  equal to 1/2.  One image gives no batch and the pass returns the patch unchanged;
  sixteen images give one batch and the pass raises.
\<close>

theorem generate_step_batches_witness:
  "and_then (default_attack [4, 4, 1] 16)
     (\<lambda>a. map_sum id (\<lambda>(a', g'). array_equal (patch a') (patch a))
        (generate_step nearest_ndimage a (full [1, 4, 4, 1] (1 / 4)) (full [1, 10] 0)
           (sconst (1 / 2)))) = Inr True \<and>
   and_then (default_attack [4, 4, 1] 16)
     (\<lambda>a. map_sum id (\<lambda>(a', g'). array_equal (patch a') (patch a))
        (generate_step nearest_ndimage a (full [16, 4, 4, 1] (1 / 4)) (full [16, 10] 0)
           (sconst (1 / 2)))) = Inl (KeyError ''shift_h'')"
proof -
  obtain a where da: "default_attack [4, 4, 1] 16 = Inr a"
    by (simp add: default_attack_init)
  note f = default_attack_facts[OF da]
  have b: "batch_size a = 16" and cv: "clip_values (estimator a) = (0, 1)"
    and pa: "patch a = amap (\<lambda>v. v * (1 / 2)) (full [4, 4, 1] 1)"
    and lr: "learning_rate a = 5"
    using da by (auto simp: default_attack_init identity_classifier_def)
  have grad: "\<forall>xb yb. shape (loss_gradient (identity_classifier [4, 4, 1] False (0, 1)) xb yb) = shape xb"
    by (simp add: identity_classifier_def)
  note T1 = generate_step_batches[OF f(1,2,3) nearest_ndimage_shapes _ _ _ grad sconst_unit,
      of "full [1, 4, 4, 1] (1 / 4)" 1 "full [1, 10] 0"]
  note T2 = generate_step_batches[OF f(1,2,3) nearest_ndimage_shapes _ _ _ grad sconst_unit,
      of "full [16, 4, 4, 1] (1 / 4)" 16 "full [16, 10] 0"]
  from T1 obtain a1 g1 where
    r1: "generate_step nearest_ndimage a (full [1, 4, 4, 1] (1 / 4)) (full [1, 10] 0)
           (sconst (1 / 2)) = Inr (a1, g1)"
    and u1: "update_patch a (zeros_like (patch a)) = Inr a1"
    by (auto simp: full_def b)
  have e1: "array_equal (patch a1) (patch a)"
    unfolding array_equal_def to_list_def update_patch_clipped(3)[OF u1]
    by (simp add: update_patch_clipped(4)[OF u1] cv pa lr amap_def full_def zeros_like_def clip_def)
  from T2 have r2: "generate_step nearest_ndimage a (full [16, 4, 4, 1] (1 / 4)) (full [16, 10] 0)
           (sconst (1 / 2)) = Inl (KeyError ''shift_h'')"
    by (simp add: full_def b)
  show ?thesis
    unfolding da and_then_Inr r1 r2 by (simp add: e1)
qed

text \<open>
  Claim C6.  Let the classifier's range be a range, \<open>clip_min \<le> clip_max\<close>.  The update
  of lines 169-170 leaves every element of the patch inside it, for any accumulated
  gradient; so does every pass of the optimisation loop that returns, and so does the loop
  after any positive number of passes.
\<close>

theorem patch_within_clip_values:
  assumes cv: "fst (clip_values (estimator a)) \<le> snd (clip_values (estimator a))"
  shows "(update_patch a patch_gradients = Inr a1 \<longrightarrow>
           list_all (\<lambda>v. fst (clip_values (estimator a)) \<le> v \<and> v \<le> snd (clip_values (estimator a)))
             (to_list (patch a1))) \<and>
         (generate_step nd a x y g = Inr (a2, g2) \<longrightarrow>
           list_all (\<lambda>v. fst (clip_values (estimator a)) \<le> v \<and> v \<le> snd (clip_values (estimator a)))
             (to_list (patch a2))) \<and>
         (generate_loop nd x y (Suc k) a g = Inr (a3, g3) \<longrightarrow>
           list_all (\<lambda>v. fst (clip_values (estimator a)) \<le> v \<and> v \<le> snd (clip_values (estimator a)))
             (to_list (patch a3)))"
proof (intro conjI impI)
  assume u: "update_patch a patch_gradients = Inr a1"
  show "list_all (\<lambda>v. fst (clip_values (estimator a)) \<le> v \<and> v \<le> snd (clip_values (estimator a)))
          (to_list (patch a1))"
    unfolding to_list_def list_all_iff update_patch_clipped(4)[OF u]
    using clip_between[OF cv] by auto
next
  assume r: "generate_step nd a x y g = Inr (a2, g2)"
  show "list_all (\<lambda>v. fst (clip_values (estimator a)) \<le> v \<and> v \<le> snd (clip_values (estimator a)))
          (to_list (patch a2))"
    unfolding to_list_def list_all_iff
    using generate_step_range(2)[OF cv r] by auto
next
  assume r: "generate_loop nd x y (Suc k) a g = Inr (a3, g3)"
  show "list_all (\<lambda>v. fst (clip_values (estimator a)) \<le> v \<and> v \<le> snd (clip_values (estimator a)))
          (to_list (patch a3))"
    unfolding to_list_def list_all_iff
    using generate_loop_range[OF cv r] by auto
qed

text \<open>
  Witness for C6: the default attack on 4 x 4 x 1 images with the range \<open>[0, 1]\<close>.  The
  gradient of all ones moves the patch from 1/2 to -9/2 and the clipping brings it back
  to 0; a pass over one image, and the loop of one pass, return a patch inside the range.
\<close>

theorem patch_within_clip_values_witness:
  "and_then (default_attack [4, 4, 1] 16)
     (\<lambda>a. map_sum id (\<lambda>a'. (elem (patch a') [0, 0, 0],
                              list_all (\<lambda>v. 0 \<le> v \<and> v \<le> 1) (to_list (patch a'))))
        (update_patch a (full [4, 4, 1] 1))) = Inr (0, True) \<and>
   and_then (default_attack [4, 4, 1] 16)
     (\<lambda>a. map_sum id (\<lambda>(a', g'). list_all (\<lambda>v. 0 \<le> v \<and> v \<le> 1) (to_list (patch a')))
        (generate_step nearest_ndimage a (full [1, 4, 4, 1] (1 / 4)) (full [1, 10] 0)
           (sconst (1 / 2)))) = Inr True \<and>
   and_then (default_attack [4, 4, 1] 16)
     (\<lambda>a. map_sum id (\<lambda>(a', g'). list_all (\<lambda>v. 0 \<le> v \<and> v \<le> 1) (to_list (patch a')))
        (generate_loop nearest_ndimage (full [1, 4, 4, 1] (1 / 4)) (full [1, 10] 0) (Suc 0) a
           (sconst (1 / 2)))) = Inr True"
proof -
  obtain a where da: "default_attack [4, 4, 1] 16 = Inr a"
    by (simp add: default_attack_init)
  note f = default_attack_facts[OF da]
  have b: "batch_size a = 16" and cv: "clip_values (estimator a) = (0, 1)"
    and pa: "patch a = amap (\<lambda>v. v * (1 / 2)) (full [4, 4, 1] 1)"
    and lr: "learning_rate a = 5"
    using da by (auto simp: default_attack_init identity_classifier_def)
  have cv': "fst (clip_values (estimator a)) \<le> snd (clip_values (estimator a))"
    by (simp add: cv)
  obtain a1 where u1: "update_patch a (full [4, 4, 1] 1) = Inr a1"
    using update_patch_same_shape[of "full [4, 4, 1] 1" a] f(4) by (auto simp: full_def)
  obtain a2 g2 where
    r2: "generate_step nearest_ndimage a (full [1, 4, 4, 1] (1 / 4)) (full [1, 10] 0)
           (sconst (1 / 2)) = Inr (a2, g2)"
    using generate_step_returns[OF f(1,2,3) nearest_ndimage_shapes _ _ sconst_unit,
        of "full [1, 4, 4, 1] (1 / 4)" 1 "full [1, 10] 0"]
    by (auto simp: full_def b)
  have r3: "generate_loop nearest_ndimage (full [1, 4, 4, 1] (1 / 4)) (full [1, 10] 0) (Suc 0) a
           (sconst (1 / 2)) = Inr (a2, g2)"
    unfolding generate_loop.simps r2 by simp
  have e: "elem (patch a1) [0, 0, 0] = 0"
    by (simp add: update_patch_clipped(4)[OF u1] cv pa lr amap_def full_def clip_def)
  from patch_within_clip_values[OF cv', of "full [4, 4, 1] 1" a1 nearest_ndimage
      "full [1, 4, 4, 1] (1 / 4)" "full [1, 10] 0" "sconst (1 / 2)" a2 g2 0 a2 g2] u1 r2 r3
  have "list_all (\<lambda>v. fst (clip_values (estimator a)) \<le> v \<and> v \<le> snd (clip_values (estimator a)))
          (to_list (patch a1))"
    and "list_all (\<lambda>v. fst (clip_values (estimator a)) \<le> v \<and> v \<le> snd (clip_values (estimator a)))
          (to_list (patch a2))"
    by blast+
  then show ?thesis
    unfolding da and_then_Inr u1 r2 r3 by (simp add: e cv)
qed

end
